theory Spec2Isabelle
  imports Main "HOL-Library.AList" "HOL-Library.Sublist"
begin

section \<open>Go types and values as the container sees them through reflect\<close>

text \<open>
  The container of \<^verbatim>\<open>container.go\<close> never looks inside a value: it asks
  \<^verbatim>\<open>reflect\<close> for the dynamic type of a token, for the kind of a type, for the
  element type of a pointer, for the parameter and result types of a function, and whether
  a type implements an interface. The types below carry exactly that information.

  \<^item> \<open>Named\<close> is a defined (or predeclared) type that is neither a pointer, an interface
    nor a function: its printed name, its kind, the methods declared with a value receiver
    and the methods declared with a pointer receiver.
  \<^item> \<open>Iface\<close> is an interface type: its printed name and its method names.
  \<^item> \<open>PtrTo\<close> and \<open>FuncOf\<close> are the pointer and the (non-variadic) function types.
\<close>

datatype basic = Bool | Int | String | Struct | Slice | Map | Chan

datatype kind = Basic basic | Ptr | Interface | Func

datatype gotype =
    Named string basic "string list" "string list"
  | Iface string "string list"
  | PtrTo gotype
  | FuncOf "gotype list" "gotype list"

fun Kind :: "gotype \<Rightarrow> kind" where
  "Kind (Named n b vm pm) = Basic b"
| "Kind (Iface n ms) = Interface"
| "Kind (PtrTo t) = Ptr"
| "Kind (FuncOf ins outs) = Func"

text \<open>\<^verbatim>\<open>Elem\<close> is only called by the container behind a \<^verbatim>\<open>Kind() == reflect.Ptr\<close> test.\<close>

fun Elem :: "gotype \<Rightarrow> gotype option" where
  "Elem (PtrTo t) = Some t"
| "Elem t = None"

text \<open>
  \<^verbatim>\<open>NumOut\<close> and \<^verbatim>\<open>Out\<close> are only called on a type whose kind has been tested to
  be \<^verbatim>\<open>reflect.Func\<close>, and with an index below the count.
\<close>

fun NumOut :: "gotype \<Rightarrow> nat" where
  "NumOut (FuncOf ins outs) = length outs"
| "NumOut t = 0"

fun Out :: "gotype \<Rightarrow> nat \<Rightarrow> gotype" where
  "Out (FuncOf ins outs) i = outs ! i"
| "Out t i = t"

fun commas :: "string list \<Rightarrow> string" where
  "commas [] = []"
| "commas [s] = s"
| "commas (s # ss) = s @ '', '' @ commas ss"

text \<open>\<^verbatim>\<open>Type.String()\<close>, used in the error messages.\<close>

fun type_string :: "gotype \<Rightarrow> string" where
  "type_string (Named n b vm pm) = n"
| "type_string (Iface n ms) = n"
| "type_string (PtrTo t) = ''*'' @ type_string t"
| "type_string (FuncOf ins outs) =
     ''func('' @ commas (map type_string ins) @ '')'' @
     (case outs of
        [] \<Rightarrow> []
      | [t] \<Rightarrow> '' '' @ type_string t
      | _ \<Rightarrow> '' ('' @ commas (map type_string outs) @ '')'')"

text \<open>
  The method set of a type: a pointer to a defined type has the methods of both receivers,
  a pointer to anything else has none.
\<close>

fun method_set :: "gotype \<Rightarrow> string list" where
  "method_set (Named n b vm pm) = vm"
| "method_set (Iface n ms) = ms"
| "method_set (PtrTo (Named n b vm pm)) = vm @ pm"
| "method_set (PtrTo t) = []"
| "method_set (FuncOf ins outs) = []"

text \<open>
  \<^verbatim>\<open>t.Implements(u)\<close>: every method of the interface \<open>u\<close> is in the method set of
  \<open>t\<close>. The container calls it with an interface \<open>u\<close> only.
\<close>

fun Implements :: "gotype \<Rightarrow> gotype \<Rightarrow> bool" where
  "Implements t (Iface n ms) = list_all (\<lambda>m. m \<in> set (method_set t)) ms"
| "Implements t u = False"

definition errorInterface :: gotype where
  "errorInterface = Iface ''error'' [''Error'']"

text \<open>\<^verbatim>\<open>reflect.TypeOf((*Container)(nil))\<close>.\<close>

definition ContainerPtr :: gotype where
  "ContainerPtr = PtrTo (Named ''inject.Container'' Struct []
     [''Register'', ''RegisterSingleton'', ''RegisterTransient'', ''Resolve'', ''Clear'',
      ''RegisterFunc'', ''Has'', ''GetServiceTypes''])"

text \<open>
  A value of type \<^verbatim>\<open>interface{}\<close>: the nil interface, the pointer to the container
  that is running, or any other value, known by its dynamic type and by what it refers to
  (\<open>None\<close> is the nil pointer, slice, map, channel or function of that type).
\<close>

datatype val = NilIface | Obj gotype "nat option" | ThisContainer

fun TypeOf :: "val \<Rightarrow> gotype option" where
  "TypeOf NilIface = None"
| "TypeOf (Obj t p) = Some t"
| "TypeOf ThisContainer = Some ContainerPtr"

text \<open>
  The three places that turn a token into a registry key (Register, Resolve, Has) all do
  \<^verbatim>\<open>if sType.Kind() == reflect.Ptr { sType = sType.Elem() }\<close>.
\<close>

definition strip_ptr :: "gotype \<Rightarrow> gotype" where
  "strip_ptr sType = (if Kind sType = Ptr then (case Elem sType of Some e \<Rightarrow> e | None \<Rightarrow> sType) else sType)"

section \<open>Errors, panics and outcomes\<close>

datatype error =
    FactoryNotFunction
  | FactoryBadArity
  | SecondNotError
  | NotImplemented gotype gotype
  | TypeMismatch gotype gotype
  | NotRegistered gotype
  | DependencyFailed gotype error
  | FactoryError val

text \<open>
  The text of each error, as \<^verbatim>\<open>fmt.Errorf\<close> builds it. The text of an error that a
  factory returned is whatever its own \<^verbatim>\<open>Error\<close> method says (\<open>user_msg\<close>).
\<close>

fun message :: "(val \<Rightarrow> string) \<Rightarrow> error \<Rightarrow> string" where
  "message user_msg FactoryNotFunction = ''factory must be a function''"
| "message user_msg FactoryBadArity =
     ''factory function must return 1 or 2 values (service and optionally error)''"
| "message user_msg SecondNotError = ''second return value must be an error''"
| "message user_msg (NotImplemented r s) =
     ''factory return type '' @ type_string r @ '' does not implement interface '' @ type_string s"
| "message user_msg (TypeMismatch r s) =
     ''factory return type '' @ type_string r @ '' does not match service type '' @ type_string s"
| "message user_msg (NotRegistered t) = ''service of type '' @ type_string t @ '' not registered''"
| "message user_msg (DependencyFailed p e) =
     ''failed to resolve dependency '' @ type_string p @ '': '' @ message user_msg e"
| "message user_msg (FactoryError v) = user_msg v"

text \<open>\<^verbatim>\<open>errors.Unwrap\<close>: only the \<^verbatim>\<open>%w\<close> of createInstance wraps.\<close>

fun Unwrap :: "error \<Rightarrow> error option" where
  "Unwrap (DependencyFailed p e) = Some e"
| "Unwrap e = None"

fun malformed_factory :: "error \<Rightarrow> bool" where
  "malformed_factory FactoryNotFunction = True"
| "malformed_factory FactoryBadArity = True"
| "malformed_factory SecondNotError = True"
| "malformed_factory e = False"

fun type_mismatch :: "error \<Rightarrow> bool" where
  "type_mismatch (NotImplemented r s) = True"
| "type_mismatch (TypeMismatch r s) = True"
| "type_mismatch e = False"

datatype panic =
    NilDereference
  | NotAFunc
  | CallNilFunction
  | CallZeroValue
  | CallNotAssignable gotype gotype
  | IsNilNotNilable kind
  | FactoryPanic

text \<open>A call returns a value, returns an error, or panics.\<close>

datatype 'a outcome = Ok 'a | Err error | Panic panic

section \<open>Factories, descriptors and the container\<close>

text \<open>
  What a factory does when it is called is not the container's code. A factory body is
  given its arguments and the memory of the program outside the container (\<open>'w\<close>), and
  it returns two results (the second is ignored when the function declares one), panics
  (also by letting the panic of a call-back through), never returns, or calls back into the container it was given and goes on with the answer.
  Only the read operations can be called back: \<^verbatim>\<open>Register\<close> and \<^verbatim>\<open>Clear\<close> wait for
  the write lock of a container whose read lock the running \<^verbatim>\<open>Resolve\<close> holds, so a
  body that calls them is one that never returns.
\<close>

datatype 'w prog =
    Return 'w val val
  | Panics 'w panic
  | Hangs
  | CallResolve 'w val "val outcome \<Rightarrow> 'w \<Rightarrow> 'w prog"
  | CallHas val "bool outcome \<Rightarrow> 'w prog"
  | CallGetServiceTypes "gotype list \<Rightarrow> 'w prog"

text \<open>
  The \<^verbatim>\<open>factory interface{}\<close> argument: its dynamic type (\<open>None\<close> for the nil
  interface) and, when it is a function that is not nil, its body.
\<close>

datatype 'w factory = FactoryValue "gotype option" "(val list \<Rightarrow> 'w \<Rightarrow> 'w prog) option"

fun factory_type :: "'w factory \<Rightarrow> gotype option" where
  "factory_type (FactoryValue t b) = t"

fun factory_body :: "'w factory \<Rightarrow> (val list \<Rightarrow> 'w \<Rightarrow> 'w prog) option" where
  "factory_body (FactoryValue t b) = b"

datatype Lifecycle = Transient | Singleton

text \<open>\<open>inst\<close> is the field \<^verbatim>\<open>instance\<close>; \<open>mu\<close> says whether the descriptor is write-locked.\<close>

record 'w ServiceDescriptor =
  ServiceType :: gotype
  Factory :: "'w factory"
  Lifecycle :: Lifecycle
  inst :: val
  mu :: bool

text \<open>
  \<open>services\<close> is the map of the container, kept as an association list with one entry
  per key. \<open>world\<close> is the memory of the rest of the program, which only factory bodies
  change. \<open>calls\<close> records each \<^verbatim>\<open>factoryValue.Call(args)\<close> that was made: the service
  type of the descriptor and the arguments.
\<close>

record 'w Container =
  services :: "(gotype \<times> 'w ServiceDescriptor) list"
  world :: 'w
  calls :: "(gotype \<times> val list) list"

definition NewContainer :: "'w \<Rightarrow> 'w Container" where
  "NewContainer w = \<lparr>services = [], world = w, calls = []\<rparr>"

definition store :: "gotype \<Rightarrow> 'w factory \<Rightarrow> Lifecycle \<Rightarrow> 'w Container \<Rightarrow> 'w Container" where
  "store sType factory lifecycle c =
     c\<lparr>services := AList.update sType
          \<lparr>ServiceType = sType, Factory = factory, Lifecycle = lifecycle, inst = NilIface, mu = False\<rparr>
          (services c)\<rparr>"

text \<open>
  \<^verbatim>\<open>Register\<close>. A nil token or a nil factory makes \<^verbatim>\<open>reflect.TypeOf\<close> return nil, and
  the \<^verbatim>\<open>Kind()\<close> call on it panics.
\<close>

definition Register :: "val \<Rightarrow> 'w factory \<Rightarrow> Lifecycle \<Rightarrow> 'w Container \<Rightarrow> unit outcome \<times> 'w Container" where
  "Register serviceType factory lifecycle c =
     (case TypeOf serviceType of
        None \<Rightarrow> (Panic NilDereference, c)
      | Some t \<Rightarrow>
          let sType = strip_ptr t in
          (case factory_type factory of
             None \<Rightarrow> (Panic NilDereference, c)
           | Some factoryType \<Rightarrow>
               if Kind factoryType \<noteq> Func then (Err FactoryNotFunction, c)
               else if NumOut factoryType \<noteq> 1 \<and> NumOut factoryType \<noteq> 2 then (Err FactoryBadArity, c)
               else if NumOut factoryType = 2 \<and> \<not> Implements (Out factoryType 1) errorInterface
                 then (Err SecondNotError, c)
               else
                 let returnType = Out factoryType 0 in
                 if Kind sType = Interface then
                   (if \<not> Implements returnType sType
                      then (Err (NotImplemented returnType sType), c)
                    else (Ok (), store sType factory lifecycle c))
                 else if returnType \<noteq> sType then
                   (if Kind returnType = Ptr \<and> Elem returnType = Some sType
                      then (Ok (), store sType factory lifecycle c)
                    else if Kind sType = Ptr \<and> Elem sType = Some returnType
                      then (Ok (), store sType factory lifecycle c)
                    else (Err (TypeMismatch returnType sType), c))
                 else (Ok (), store sType factory lifecycle c)))"

definition RegisterSingleton :: "val \<Rightarrow> 'w factory \<Rightarrow> 'w Container \<Rightarrow> unit outcome \<times> 'w Container" where
  "RegisterSingleton serviceType factory c = Register serviceType factory Singleton c"

definition RegisterTransient :: "val \<Rightarrow> 'w factory \<Rightarrow> 'w Container \<Rightarrow> unit outcome \<times> 'w Container" where
  "RegisterTransient serviceType factory c = Register serviceType factory Transient c"

definition Has :: "val \<Rightarrow> 'w Container \<Rightarrow> bool outcome" where
  "Has serviceType c =
     (case TypeOf serviceType of
        None \<Rightarrow> Panic NilDereference
      | Some t \<Rightarrow> Ok (map_of (services c) (strip_ptr t) \<noteq> None))"

text \<open>Go ranges over the map in no fixed order; the list of keys is given in the order of the model.\<close>

definition GetServiceTypes :: "'w Container \<Rightarrow> gotype list" where
  "GetServiceTypes c = map fst (services c)"

definition Clear :: "'w Container \<Rightarrow> 'w Container" where
  "Clear c = c\<lparr>services := []\<rparr>"


section \<open>Resolution\<close>

text \<open>
  The map holds pointers to descriptors, and a descriptor is reachable from one key only,
  so writing a field of the descriptor found under a key is an update of that entry.
\<close>

definition update_descriptor ::
  "gotype \<Rightarrow> ('w ServiceDescriptor \<Rightarrow> 'w ServiceDescriptor) \<Rightarrow> 'w Container \<Rightarrow> 'w Container" where
  "update_descriptor t f c = c\<lparr>services := AList.map_entry t f (services c)\<rparr>"

abbreviation mu_Lock :: "gotype \<Rightarrow> 'w Container \<Rightarrow> 'w Container" where
  "mu_Lock t c \<equiv> update_descriptor t (\<lambda>d. d\<lparr>mu := True\<rparr>) c"

abbreviation mu_Unlock :: "gotype \<Rightarrow> 'w Container \<Rightarrow> 'w Container" where
  "mu_Unlock t c \<equiv> update_descriptor t (\<lambda>d. d\<lparr>mu := False\<rparr>) c"

text \<open>
  \<^verbatim>\<open>Value.IsNil\<close> on a result of static type \<open>t\<close>: it panics unless the kind of \<open>t\<close>
  is one that has a nil.
\<close>

fun is_nil_ref :: "val \<Rightarrow> bool" where
  "is_nil_ref NilIface = True"
| "is_nil_ref (Obj t None) = True"
| "is_nil_ref (Obj t (Some a)) = False"
| "is_nil_ref ThisContainer = False"

fun IsNil :: "gotype \<Rightarrow> val \<Rightarrow> bool option" where
  "IsNil t v =
     (case Kind t of
        Interface \<Rightarrow> Some (v = NilIface)
      | Ptr \<Rightarrow> Some (is_nil_ref v)
      | Func \<Rightarrow> Some (is_nil_ref v)
      | Basic Slice \<Rightarrow> Some (is_nil_ref v)
      | Basic Map \<Rightarrow> Some (is_nil_ref v)
      | Basic Chan \<Rightarrow> Some (is_nil_ref v)
      | Basic b \<Rightarrow> None)"

text \<open>
  \<^verbatim>\<open>Value.Call\<close> panics on a nil function, on an argument that is the zero Value
  (\<^verbatim>\<open>reflect.ValueOf\<close> of a nil interface) and on an argument whose type is not
  assignable to the parameter type: here, a type that is neither the parameter type nor
  an implementation of it.
\<close>

definition assignable :: "val \<Rightarrow> gotype \<Rightarrow> bool" where
  "assignable v p =
     (case TypeOf v of
        None \<Rightarrow> False
      | Some t \<Rightarrow> t = p \<or> (Kind p = Interface \<and> Implements t p))"

fun first_mismatch :: "val list \<Rightarrow> gotype list \<Rightarrow> (gotype \<times> gotype) option" where
  "first_mismatch (v # vs) (p # ps) =
     (if assignable v p then first_mismatch vs ps
      else (case TypeOf v of Some t \<Rightarrow> Some (t, p) | None \<Rightarrow> first_mismatch vs ps))"
| "first_mismatch vs ps = None"

datatype returned = Results val val | Panicked panic

text \<open>
  \<^verbatim>\<open>resolveType\<close> and \<^verbatim>\<open>createInstance\<close> call each other, and a factory body can
  call \<^verbatim>\<open>Resolve\<close> again: a registration that depends on itself never returns. The
  first argument bounds the number of nested calls and loop steps, and \<open>None\<close> is a run
  that does not return within it. A singleton descriptor that is write-locked is being
  created by an enclosing call of the same goroutine, and \<^verbatim>\<open>descriptor.mu.RLock()\<close>
  waits for it for ever. The second test of \<^verbatim>\<open>descriptor.instance\<close>, under the write
  lock, reads the field that the first test read: in one goroutine nothing runs in between.
  The deferred \<^verbatim>\<open>Unlock\<close> runs on every way out, a panic too.

  \<open>resolveArgs\<close> is the loop of \<^verbatim>\<open>createInstance\<close> over the parameter types, and
  \<open>run_body\<close> runs the body of the factory inside \<^verbatim>\<open>factoryValue.Call(args)\<close>.
\<close>

fun resolveType :: "nat \<Rightarrow> gotype \<Rightarrow> 'w Container \<Rightarrow> (val outcome \<times> 'w Container) option"
and createInstance :: "nat \<Rightarrow> 'w ServiceDescriptor \<Rightarrow> 'w Container \<Rightarrow> (val outcome \<times> 'w Container) option"
and resolveArgs :: "nat \<Rightarrow> gotype list \<Rightarrow> 'w Container \<Rightarrow> (val list outcome \<times> 'w Container) option"
and run_body :: "nat \<Rightarrow> 'w prog \<Rightarrow> 'w Container \<Rightarrow> (returned \<times> 'w Container) option"
where
  "resolveType 0 serviceType c = None"
| "resolveType (Suc n) serviceType c =
     (case map_of (services c) serviceType of
        None \<Rightarrow> Some (Err (NotRegistered serviceType), c)
      | Some descriptor \<Rightarrow>
          if Lifecycle descriptor = Singleton then
            if mu descriptor then None
            else if inst descriptor \<noteq> NilIface then Some (Ok (inst descriptor), c)
            else if inst descriptor \<noteq> NilIface
              then Some (Ok (inst descriptor), mu_Unlock serviceType (mu_Lock serviceType c))
            else
              (case createInstance n descriptor (mu_Lock serviceType c) of
                 None \<Rightarrow> None
               | Some (r, c') \<Rightarrow>
                   (case r of
                      Ok v \<Rightarrow> Some (Ok v, mu_Unlock serviceType (update_descriptor serviceType (\<lambda>d. d\<lparr>inst := v\<rparr>) c'))
                    | Err e \<Rightarrow> Some (Err e, mu_Unlock serviceType c')
                    | Panic p \<Rightarrow> Some (Panic p, mu_Unlock serviceType c')))
          else createInstance n descriptor c)"
| "createInstance 0 descriptor c = None"
| "createInstance (Suc n) descriptor c =
     (case factory_type (Factory descriptor) of
        Some (FuncOf ins outs) \<Rightarrow>
          (case resolveArgs n ins c of
             None \<Rightarrow> None
           | Some (r, c') \<Rightarrow>
               (case r of
                  Err e \<Rightarrow> Some (Err e, c')
                | Panic p \<Rightarrow> Some (Panic p, c')
                | Ok args \<Rightarrow>
                    (case factory_body (Factory descriptor) of
                       None \<Rightarrow> Some (Panic CallNilFunction, c')
                     | Some body \<Rightarrow>
                         if NilIface \<in> set args then Some (Panic CallZeroValue, c')
                         else
                           (case first_mismatch args ins of
                              Some (t, p) \<Rightarrow> Some (Panic (CallNotAssignable t p), c')
                            | None \<Rightarrow>
                                (case run_body n (body args (world c'))
                                        (c'\<lparr>calls := calls c' @ [(ServiceType descriptor, args)]\<rparr>) of
                                   None \<Rightarrow> None
                                 | Some (r', c'') \<Rightarrow>
                                     (case r' of
                                        Panicked p \<Rightarrow> Some (Panic p, c'')
                                      | Results r0 r1 \<Rightarrow>
                                          if length outs = 2 then
                                            (case IsNil (outs ! 1) r1 of
                                               None \<Rightarrow> Some (Panic (IsNilNotNilable (Kind (outs ! 1))), c'')
                                             | Some False \<Rightarrow> Some (Err (FactoryError r1), c'')
                                             | Some True \<Rightarrow> Some (Ok r0, c''))
                                          else Some (Ok r0, c'')))))))
      | _ \<Rightarrow> Some (Panic NotAFunc, c))"
| "resolveArgs 0 ps c = None"
| "resolveArgs (Suc n) [] c = Some (Ok [], c)"
| "resolveArgs (Suc n) (argType # ps) c =
     (if argType = ContainerPtr then
        (case resolveArgs n ps c of
           None \<Rightarrow> None
         | Some (r, c') \<Rightarrow>
             (case r of
                Ok args \<Rightarrow> Some (Ok (ThisContainer # args), c')
              | Err e \<Rightarrow> Some (Err e, c')
              | Panic p \<Rightarrow> Some (Panic p, c')))
      else
        (case resolveType n argType c of
           None \<Rightarrow> None
         | Some (r, c') \<Rightarrow>
             (case r of
                Err e \<Rightarrow> Some (Err (DependencyFailed argType e), c')
              | Panic p \<Rightarrow> Some (Panic p, c')
              | Ok arg \<Rightarrow>
                  (case resolveArgs n ps c' of
                     None \<Rightarrow> None
                   | Some (r', c'') \<Rightarrow>
                       (case r' of
                          Ok args \<Rightarrow> Some (Ok (arg # args), c'')
                        | Err e \<Rightarrow> Some (Err e, c'')
                        | Panic p \<Rightarrow> Some (Panic p, c''))))))"
| "run_body 0 p c = None"
| "run_body (Suc n) (Return w r0 r1) c = Some (Results r0 r1, c\<lparr>world := w\<rparr>)"
| "run_body (Suc n) (Panics w p) c = Some (Panicked p, c\<lparr>world := w\<rparr>)"
| "run_body (Suc n) Hangs c = None"
| "run_body (Suc n) (CallResolve w serviceType k) c =
     (case TypeOf serviceType of
        None \<Rightarrow> run_body n (k (Panic NilDereference) w) (c\<lparr>world := w\<rparr>)
      | Some t \<Rightarrow>
          (case resolveType n (strip_ptr t) (c\<lparr>world := w\<rparr>) of
             None \<Rightarrow> None
           | Some (r, c') \<Rightarrow> run_body n (k r (world c')) c'))"
| "run_body (Suc n) (CallHas serviceType k) c = run_body n (k (Has serviceType c)) c"
| "run_body (Suc n) (CallGetServiceTypes k) c = run_body n (k (GetServiceTypes c)) c"

text \<open>The exported \<^verbatim>\<open>Resolve\<close>, with the same bound.\<close>

definition Resolve :: "nat \<Rightarrow> val \<Rightarrow> 'w Container \<Rightarrow> (val outcome \<times> 'w Container) option" where
  "Resolve n serviceType c =
     (case TypeOf serviceType of
        None \<Rightarrow> Some (Panic NilDereference, c)
      | Some t \<Rightarrow> resolveType n (strip_ptr t) c)"



section \<open>Notions used to state the properties\<close>

text \<open>
  A factory type as the specification wants it: a function with one result, or with two
  results of which the second implements \<^verbatim>\<open>error\<close>.
\<close>

fun well_formed_factory :: "gotype \<Rightarrow> bool" where
  "well_formed_factory (FuncOf ins [r]) = True"
| "well_formed_factory (FuncOf ins [r, e]) = Implements e errorInterface"
| "well_formed_factory t = False"

fun first_result :: "gotype \<Rightarrow> gotype option" where
  "first_result (FuncOf ins (r # outs)) = Some r"
| "first_result t = None"

text \<open>
  What a resolution may do to a descriptor: nothing, or fill the empty slot of an unlocked
  singleton. What it may do to the container: that to each descriptor, and calls added at
  the end of the list of calls.
\<close>

definition fills :: "'w ServiceDescriptor \<Rightarrow> 'w ServiceDescriptor \<Rightarrow> bool" where
  "fills d d' \<longleftrightarrow>
     d' = d \<or> (Lifecycle d = Singleton \<and> \<not> mu d \<and> inst d = NilIface \<and> d' = d\<lparr>inst := inst d'\<rparr>)"

definition evolves :: "'w Container \<Rightarrow> 'w Container \<Rightarrow> bool" where
  "evolves c c' \<longleftrightarrow>
     (\<forall>t. rel_option fills (map_of (services c) t) (map_of (services c') t)) \<and>
     prefix (calls c) (calls c')"

text \<open>Ways to read an outcome and a factory value.\<close>

fun fails_malformed :: "unit outcome \<Rightarrow> bool" where
  "fails_malformed (Err e) = malformed_factory e"
| "fails_malformed r = False"

fun is_function :: "'w factory \<Rightarrow> bool" where
  "is_function (FactoryValue (Some (FuncOf ins outs)) b) = True"
| "is_function f = False"

fun not_registered_error :: "val outcome \<Rightarrow> bool" where
  "not_registered_error (Err (NotRegistered t)) = True"
| "not_registered_error r = False"

text \<open>
  What the loop over the parameters returns when the arguments \<open>as\<close> are bound and the
  rest of the loop returns \<open>r\<close>.
\<close>

fun bind_rest :: "val list \<Rightarrow> val list outcome \<Rightarrow> val list outcome" where
  "bind_rest as (Ok bs) = Ok (as @ bs)"
| "bind_rest as (Err e) = Err e"
| "bind_rest as (Panic p) = Panic p"

section \<open>Example registrations, after the tests of the package\<close>

text \<open>
  The types are those of \<^verbatim>\<open>container_test.go\<close>. The memory outside the container is a
  counter, the next free address, and a factory that allocates returns a pointer to that
  address. \<open>token t\<close> is \<^verbatim>\<open>(*T)(nil)\<close>. The factories are
  \<^item> \<open>new_implementation\<close>: \<^verbatim>\<open>func() *TestImplementation { return &TestImplementation{} }\<close>;
  \<^item> \<open>wrong_type_factory\<close>: \<^verbatim>\<open>func() string\<close>; \<open>not_a_function\<close>: a string;
    \<open>nil_factory\<close>: the nil interface;
  \<^item> \<open>new_service\<close>: \<^verbatim>\<open>func(dep TestInterface) *TestService\<close>;
  \<^item> \<open>new_repository\<close>: \<^verbatim>\<open>func(c *Container) *TestRepository\<close>;
  \<^item> \<open>failing_factory\<close>: \<^verbatim>\<open>func() (*TestImplementation, error) { return nil, errors.New(...) }\<close>;
  \<^item> \<open>struct_error_factory\<close>: \<^verbatim>\<open>func() (*TestImplementation, StructError)\<close>, where
    \<^verbatim>\<open>StructError\<close> is a struct type with a method \<^verbatim>\<open>Error\<close> on the value receiver,
    returning \<^verbatim>\<open>nil, StructError{}\<close>;
  \<^item> \<open>nil_interface_factory\<close>: \<^verbatim>\<open>func() TestInterface { return nil }\<close>;
  \<^item> \<open>shared_factory\<close>: \<^verbatim>\<open>func() *TestImplementation { return shared }\<close>, for a variable
    \<^verbatim>\<open>shared\<close> of the package that holds address 7.
\<close>

definition TestInterface :: gotype where
  "TestInterface = Iface ''inject.TestInterface'' [''GetValue'']"

definition TestImplementation :: gotype where
  "TestImplementation = Named ''inject.TestImplementation'' Struct [] [''GetValue'']"

definition TestService :: gotype where
  "TestService = Named ''inject.TestService'' Struct [] [''GetDependency'']"

definition string_type :: gotype where
  "string_type = Named ''string'' String [] []"

definition token :: "gotype \<Rightarrow> val" where
  "token t = Obj (PtrTo t) None"

definition new_implementation :: "nat factory" where
  "new_implementation = FactoryValue (Some (FuncOf [] [PtrTo TestImplementation]))
     (Some (\<lambda>args w. Return (Suc w) (Obj (PtrTo TestImplementation) (Some w)) NilIface))"

definition wrong_type_factory :: "nat factory" where
  "wrong_type_factory = FactoryValue (Some (FuncOf [] [string_type]))
     (Some (\<lambda>args w. Return w (Obj string_type (Some 0)) NilIface))"

definition not_a_function :: "nat factory" where
  "not_a_function = FactoryValue (Some string_type) None"

definition nil_factory :: "nat factory" where
  "nil_factory = FactoryValue None None"

definition empty_container :: "nat Container" where
  "empty_container = NewContainer 0"

definition one_singleton :: "nat Container" where
  "one_singleton = store TestImplementation new_implementation Singleton empty_container"

definition TestRepository :: gotype where
  "TestRepository = Named ''inject.TestRepository'' Struct [] [''Get'', ''Set'']"

definition errorString :: gotype where
  "errorString = Named ''errors.errorString'' Struct [] [''Error'']"

definition StructError :: gotype where
  "StructError = Named ''inject.StructError'' Struct [''Error''] []"

definition new_service :: "nat factory" where
  "new_service = FactoryValue (Some (FuncOf [TestInterface] [PtrTo TestService]))
     (Some (\<lambda>args w. Return (Suc w) (Obj (PtrTo TestService) (Some w)) NilIface))"

definition new_repository :: "nat factory" where
  "new_repository = FactoryValue (Some (FuncOf [ContainerPtr] [PtrTo TestRepository]))
     (Some (\<lambda>args w. Return (Suc w) (Obj (PtrTo TestRepository) (Some w)) NilIface))"

definition failing_factory :: "nat factory" where
  "failing_factory = FactoryValue (Some (FuncOf [] [PtrTo TestImplementation, errorInterface]))
     (Some (\<lambda>args w. Return (Suc w) (Obj (PtrTo TestImplementation) None) (Obj (PtrTo errorString) (Some w))))"

definition struct_error_factory :: "nat factory" where
  "struct_error_factory = FactoryValue (Some (FuncOf [] [PtrTo TestImplementation, StructError]))
     (Some (\<lambda>args w. Return w (Obj (PtrTo TestImplementation) None) (Obj StructError (Some 0))))"

definition nil_interface_factory :: "nat factory" where
  "nil_interface_factory = FactoryValue (Some (FuncOf [] [TestInterface]))
     (Some (\<lambda>args w. Return (Suc w) NilIface NilIface))"

definition descriptor_of :: "gotype \<Rightarrow> 'w factory \<Rightarrow> Lifecycle \<Rightarrow> 'w ServiceDescriptor" where
  "descriptor_of t f l = \<lparr>ServiceType = t, Factory = f, Lifecycle = l, inst = NilIface, mu = False\<rparr>"

definition one_transient :: "nat Container" where
  "one_transient = store TestImplementation new_implementation Transient empty_container"

definition service_only :: "nat Container" where
  "service_only = store TestService new_service Transient empty_container"

definition repository_singleton :: "nat Container" where
  "repository_singleton = store TestRepository new_repository Singleton empty_container"

definition failing_singleton :: "nat Container" where
  "failing_singleton = store TestImplementation failing_factory Singleton empty_container"

definition struct_error_singleton :: "nat Container" where
  "struct_error_singleton = store TestImplementation struct_error_factory Singleton empty_container"

definition nil_singleton :: "nat Container" where
  "nil_singleton = store TestInterface nil_interface_factory Singleton empty_container"

definition shared_factory :: "nat factory" where
  "shared_factory = FactoryValue (Some (FuncOf [] [PtrTo TestImplementation]))
     (Some (\<lambda>args w. Return w (Obj (PtrTo TestImplementation) (Some 7)) NilIface))"

definition shared_transient :: "nat Container" where
  "shared_transient = store TestImplementation shared_factory Transient empty_container"

section \<open>Facts about registration\<close>

lemma Kind_Ptr_iff: "Kind t = Ptr \<and> Elem t = Some s \<longleftrightarrow> t = PtrTo s"
  by (cases t) auto

lemma well_formed_factory_iff:
  "well_formed_factory ft \<longleftrightarrow>
     Kind ft = Func \<and> (NumOut ft = 1 \<or> NumOut ft = 2) \<and>
     (NumOut ft \<noteq> 2 \<or> Implements (Out ft 1) errorInterface)"
proof (cases ft)
  case (FuncOf ins outs)
  then show ?thesis
    by (cases outs; cases "tl outs"; cases "tl (tl outs)") auto
qed auto

lemma first_result_Out: "well_formed_factory ft \<Longrightarrow> first_result ft = Some (Out ft 0)"
  by (cases ft rule: well_formed_factory.cases) auto

lemma Register_well_formed:
  assumes "TypeOf serviceType = Some t" and "factory_type factory = Some ft"
    and "well_formed_factory ft"
  shows "Register serviceType factory lifecycle c =
     (let S = strip_ptr t; R = Out ft 0 in
      if Kind S = Interface then
        (if Implements R S then (Ok (), store S factory lifecycle c) else (Err (NotImplemented R S), c))
      else
        (if R = S \<or> R = PtrTo S \<or> S = PtrTo R then (Ok (), store S factory lifecycle c)
         else (Err (TypeMismatch R S), c)))"
  using assms by (auto simp: Register_def Let_def well_formed_factory_iff Kind_Ptr_iff)

lemma Register_Ok:
  assumes "Register serviceType factory lifecycle c = (Ok (), c')"
  shows "\<exists>t. TypeOf serviceType = Some t \<and> c' = store (strip_ptr t) factory lifecycle c \<and>
           fst (Register serviceType factory lifecycle c0) = Ok ()"
proof -
  obtain t where t: "TypeOf serviceType = Some t"
    using assms by (cases "TypeOf serviceType") (auto simp: Register_def)
  have "c' = store (strip_ptr t) factory lifecycle c"
    using assms t
    by (auto simp: Register_def Let_def split: option.splits if_splits)
  moreover have "fst (Register serviceType factory lifecycle c0) = Ok ()"
    using assms t
    by (auto simp: Register_def Let_def split: option.splits if_splits)
  ultimately show ?thesis using t by simp
qed

lemma Register_one_singleton:
  "Register (token TestImplementation) new_implementation Singleton empty_container = (Ok (), one_singleton)"
  by (simp add: Register_def token_def new_implementation_def strip_ptr_def one_singleton_def
        TestImplementation_def Let_def)

lemma Register_nil_singleton:
  "Register (token TestInterface) nil_interface_factory Singleton empty_container = (Ok (), nil_singleton)"
  by (simp add: Register_def token_def nil_interface_factory_def strip_ptr_def nil_singleton_def
        TestInterface_def Let_def)

lemmas example_defs =
  token_def strip_ptr_def store_def empty_container_def NewContainer_def update_descriptor_def
  descriptor_of_def Resolve_def

section \<open>Facts about resolution\<close>

lemmas run_simps = resolveType.simps createInstance.simps resolveArgs.simps run_body.simps

declare resolveType.simps [simp del] createInstance.simps [simp del]
  resolveArgs.simps [simp del] run_body.simps [simp del]

lemma map_entry_twice:
  "AList.map_entry k f (AList.map_entry k g xs) = AList.map_entry k (\<lambda>d. f (g d)) xs"
  by (induction xs) auto

lemma update_descriptor_twice [simp]:
  "update_descriptor t f (update_descriptor t g c) = update_descriptor t (\<lambda>d. f (g d)) c"
  by (simp add: update_descriptor_def map_entry_twice)

lemma fuel_Suc:
  "(\<forall>t c x. resolveType n t (c::'w Container) = Some x \<longrightarrow> resolveType (Suc n) t c = Some x) \<and>
   (\<forall>d c x. createInstance n d (c::'w Container) = Some x \<longrightarrow> createInstance (Suc n) d c = Some x) \<and>
   (\<forall>ps c x. resolveArgs n ps (c::'w Container) = Some x \<longrightarrow> resolveArgs (Suc n) ps c = Some x) \<and>
   (\<forall>p c x. run_body n p (c::'w Container) = Some x \<longrightarrow> run_body (Suc n) p c = Some x)"
proof (induction n)
  case 0
  show ?case by (simp add: resolveType.simps createInstance.simps resolveArgs.simps run_body.simps)
next
  case (Suc n)
  then have IH1: "\<And>t c x. resolveType n t (c::'w Container) = Some x \<Longrightarrow> resolveType (Suc n) t c = Some x"
    and IH2: "\<And>d c x. createInstance n d (c::'w Container) = Some x \<Longrightarrow> createInstance (Suc n) d c = Some x"
    and IH3: "\<And>ps c x. resolveArgs n ps (c::'w Container) = Some x \<Longrightarrow> resolveArgs (Suc n) ps c = Some x"
    and IH4: "\<And>p c x. run_body n p (c::'w Container) = Some x \<Longrightarrow> run_body (Suc n) p c = Some x"
    by auto
  have P1: "resolveType (Suc (Suc n)) t c = Some x" if "resolveType (Suc n) t c = Some x"
    for t x and c :: "'w Container"
  proof (cases "map_of (services c) t")
    case None
    with that show ?thesis by (simp add: resolveType.simps)
  next
    case (Some d)
    show ?thesis
    proof (cases "createInstance n d (mu_Lock t c)")
      case None
      with that Some show ?thesis
        by (auto simp: resolveType.simps split: if_splits dest: IH2)
    next
      case (Some y)
      from IH2[OF this] this that \<open>map_of (services c) t = Some d\<close> show ?thesis
        by (auto simp: resolveType.simps split: if_splits dest: IH2)
    qed
  qed
  have P3: "resolveArgs (Suc (Suc n)) ps c = Some x" if "resolveArgs (Suc n) ps c = Some x"
    for ps x and c :: "'w Container"
  proof (cases ps)
    case Nil
    with that show ?thesis by (simp add: resolveArgs.simps)
  next
    case (Cons a as)
    show ?thesis
    proof (cases "a = ContainerPtr")
      case True
      with that Cons show ?thesis
        by (cases "resolveArgs n as c") (auto simp: resolveArgs.simps dest: IH3)
    next
      case False
      show ?thesis
      proof (cases "resolveType n a c")
        case None
        with that Cons False show ?thesis by (simp add: resolveArgs.simps)
      next
        case (Some y)
        obtain r c1 where y: "y = (r, c1)" by (cases y)
        note rt = IH1[OF Some]
        show ?thesis
        proof (cases "resolveArgs n as c1")
          case None
          with that Cons False Some y rt show ?thesis
            by (auto simp: resolveArgs.simps split: outcome.splits)
        next
          case (Some z)
          from IH3[OF this] this that Cons False \<open>resolveType n a c = Some y\<close> y rt show ?thesis
            by (auto simp: resolveArgs.simps split: outcome.splits)
        qed
      qed
    qed
  qed
  have P4: "run_body (Suc (Suc n)) p c = Some x" if "run_body (Suc n) p c = Some x"
    for p x and c :: "'w Container"
  proof (cases p)
    case (CallResolve w tok k)
    show ?thesis
    proof (cases "TypeOf tok")
      case None
      with that CallResolve show ?thesis by (auto simp: run_body.simps dest: IH4)
    next
      case (Some t)
      show ?thesis
      proof (cases "resolveType n (strip_ptr t) (c\<lparr>world := w\<rparr>)")
        case None
        with that CallResolve Some show ?thesis by (simp add: run_body.simps)
      next
        case (Some y)
        obtain r c1 where y: "y = (r, c1)" by (cases y)
        from that CallResolve \<open>TypeOf tok = Some t\<close> Some y
        have "run_body n (k r (world c1)) c1 = Some x" by (simp add: run_body.simps)
        from IH4[OF this] IH1[OF Some] CallResolve \<open>TypeOf tok = Some t\<close> y show ?thesis
          by (simp add: run_body.simps)
      qed
    qed
  qed (use that in \<open>auto simp: run_body.simps dest: IH4\<close>)
  have P2: "createInstance (Suc (Suc n)) d c = Some x" if "createInstance (Suc n) d c = Some x"
    for d x and c :: "'w Container"
  proof (cases "factory_type (Factory d)")
    case None
    with that show ?thesis by (simp add: createInstance.simps)
  next
    case (Some ft)
    show ?thesis
    proof (cases ft)
      case (FuncOf ins outs)
      show ?thesis
      proof (cases "resolveArgs n ins c")
        case None
        with that Some FuncOf show ?thesis by (simp add: createInstance.simps)
      next
        case ra: (Some y)
        obtain r c1 where y: "y = (r, c1)" by (cases y)
        note ra' = IH3[OF ra]
        show ?thesis
        proof (cases r)
          case (Ok args)
          show ?thesis
          proof (cases "factory_body (Factory d)")
            case None
            with that Some FuncOf ra ra' y Ok show ?thesis by (simp add: createInstance.simps)
          next
            case fb: (Some body)
            show ?thesis
            proof (cases "run_body n (body args (world c1)) (c1\<lparr>calls := calls c1 @ [(ServiceType d, args)]\<rparr>)")
              case None
              with that Some FuncOf ra ra' y Ok fb show ?thesis
                by (auto simp: createInstance.simps split: if_splits option.splits)
            next
              case rb: (Some z)
              from IH4[OF rb] rb that Some FuncOf ra ra' y Ok fb show ?thesis
                by (auto simp: createInstance.simps split: if_splits option.splits)
            qed
          qed
        qed (use that Some FuncOf ra ra' y in \<open>auto simp: createInstance.simps\<close>)
      qed
    qed (use that Some in \<open>auto simp: createInstance.simps\<close>)
  qed
  show ?case using P1 P2 P3 P4 by blast
qed

lemma fills_refl: "fills d d"
  by (simp add: fills_def)

lemma fills_trans: "fills d d' \<Longrightarrow> fills d' d'' \<Longrightarrow> fills d d''"
  by (auto simp: fills_def)

lemma evolves_refl: "evolves c c"
  by (simp add: evolves_def option.rel_refl fills_refl)

lemma evolves_trans: "evolves c c' \<Longrightarrow> evolves c' c'' \<Longrightarrow> evolves c c''"
  unfolding evolves_def
proof (intro conjI allI)
  fix t
  assume a: "(\<forall>t. rel_option fills (map_of (services c) t) (map_of (services c') t)) \<and> prefix (calls c) (calls c')"
    and b: "(\<forall>t. rel_option fills (map_of (services c') t) (map_of (services c'') t)) \<and> prefix (calls c') (calls c'')"
  from a b have "rel_option fills (map_of (services c) t) (map_of (services c') t)"
    "rel_option fills (map_of (services c') t) (map_of (services c'') t)" by auto
  then show "rel_option fills (map_of (services c) t) (map_of (services c'') t)"
    by (cases "map_of (services c) t"; cases "map_of (services c') t"; cases "map_of (services c'') t")
       (auto intro: fills_trans)
next
  assume "(\<forall>t. rel_option fills (map_of (services c) t) (map_of (services c') t)) \<and> prefix (calls c) (calls c')"
    and "(\<forall>t. rel_option fills (map_of (services c') t) (map_of (services c'') t)) \<and> prefix (calls c') (calls c'')"
  then show "prefix (calls c) (calls c'')" by (auto intro: prefix_order.trans)
qed

lemma evolves_world: "evolves c (c\<lparr>world := w\<rparr>)"
  by (simp add: evolves_def option.rel_refl fills_refl)

lemma evolves_call: "evolves c (c\<lparr>calls := calls c @ xs\<rparr>)"
  by (simp add: evolves_def option.rel_refl fills_refl)

lemma evolves_unlock:
  assumes "map_of (services c) t = Some d" "Lifecycle d = Singleton" "\<not> mu d" "inst d = NilIface"
    and "evolves (mu_Lock t c) c'"
  shows "evolves c (update_descriptor t (\<lambda>d. d\<lparr>inst := v, mu := False\<rparr>) c')"
    and "evolves c (mu_Unlock t c')"
proof -
  let ?cL = "mu_Lock t c"
  have L: "map_of (services ?cL) t = Some (d\<lparr>mu := True\<rparr>)"
    using assms(1) by (simp add: update_descriptor_def map_of_map_entry)
  have "rel_option fills (map_of (services ?cL) t) (map_of (services c') t)"
    using assms(5) by (simp add: evolves_def)
  then have c't: "map_of (services c') t = Some (d\<lparr>mu := True\<rparr>)"
    using L by (cases "map_of (services c') t") (auto simp: fills_def)
  have other: "rel_option fills (map_of (services c) k) (map_of (services c') k)" if "k \<noteq> t" for k
  proof -
    have e: "map_of (services ?cL) k = map_of (services c) k"
      using that by (simp add: update_descriptor_def map_of_map_entry)
    have "rel_option fills (map_of (services ?cL) k) (map_of (services c') k)"
      using assms(5) by (simp add: evolves_def)
    then show ?thesis unfolding e .
  qed
  have pre: "prefix (calls c) (calls c')"
    using assms(5) by (simp add: evolves_def update_descriptor_def)
  have d1: "d\<lparr>mu := True\<rparr>\<lparr>inst := v, mu := False\<rparr> = d\<lparr>inst := v\<rparr>"
    using assms(3) by simp
  have d2: "d\<lparr>mu := True\<rparr>\<lparr>mu := False\<rparr> = d"
    using assms(3) by simp
  show "evolves c (update_descriptor t (\<lambda>d. d\<lparr>inst := v, mu := False\<rparr>) c')"
    unfolding evolves_def
  proof (intro conjI allI)
    fix k
    show "rel_option fills (map_of (services c) k)
            (map_of (services (update_descriptor t (\<lambda>d. d\<lparr>inst := v, mu := False\<rparr>) c')) k)"
    proof (cases "k = t")
      case True
      then show ?thesis using c't assms(1-4) d1
        by (simp add: update_descriptor_def map_of_map_entry fills_def)
    next
      case False
      then show ?thesis using other[OF False]
        by (simp add: update_descriptor_def map_of_map_entry)
    qed
  qed (use pre in \<open>simp add: update_descriptor_def\<close>)
  show "evolves c (mu_Unlock t c')"
    unfolding evolves_def
  proof (intro conjI allI)
    fix k
    show "rel_option fills (map_of (services c) k)
            (map_of (services (mu_Unlock t c')) k)"
    proof (cases "k = t")
      case True
      then show ?thesis using c't assms(1-4) d2
        by (simp add: update_descriptor_def map_of_map_entry fills_def)
    next
      case False
      then show ?thesis using other[OF False]
        by (simp add: update_descriptor_def map_of_map_entry)
    qed
  qed (use pre in \<open>simp add: update_descriptor_def\<close>)
qed


lemma evolves_run:
  "(\<forall>t c r c'. resolveType n t c = Some (r, c') \<longrightarrow> evolves (c::'w Container) c') \<and>
   (\<forall>d c r c'. createInstance n d c = Some (r, c') \<longrightarrow> evolves (c::'w Container) c') \<and>
   (\<forall>ps c r c'. resolveArgs n ps c = Some (r, c') \<longrightarrow> evolves (c::'w Container) c') \<and>
   (\<forall>p c r c'. run_body n p c = Some (r, c') \<longrightarrow> evolves (c::'w Container) c')"
proof (induction n)
  case 0
  show ?case by (simp add: run_simps)
next
  case (Suc n)
  then have IH1: "\<And>t c r c'. resolveType n t c = Some (r, c') \<Longrightarrow> evolves (c::'w Container) c'"
    and IH2: "\<And>d c r c'. createInstance n d c = Some (r, c') \<Longrightarrow> evolves (c::'w Container) c'"
    and IH3: "\<And>ps c r c'. resolveArgs n ps c = Some (r, c') \<Longrightarrow> evolves (c::'w Container) c'"
    and IH4: "\<And>p c r c'. run_body n p c = Some (r, c') \<Longrightarrow> evolves (c::'w Container) c'"
    by auto
  have P1: "evolves c c'" if "resolveType (Suc n) t c = Some (r, c')" for t r and c c' :: "'w Container"
  proof (cases "map_of (services c) t")
    case None
    with that show ?thesis by (simp add: evolves_refl run_simps)
  next
    case (Some d)
    show ?thesis
    proof (cases "Lifecycle d = Singleton")
      case False
      with that Some show ?thesis by (auto simp: run_simps dest!: IH2)
    next
      case True
      note sing = this
      show ?thesis
      proof (cases "mu d \<or> inst d \<noteq> NilIface")
        case True
        with that Some sing show ?thesis by (auto simp: evolves_refl run_simps split: if_splits)
      next
        case False
        have "createInstance n d (mu_Lock t c) \<noteq> None"
          using that Some sing False by (auto simp: run_simps split: option.splits)
        then obtain r1 c1 where
          ci: "createInstance n d (mu_Lock t c) = Some (r1, c1)"
          by (cases "createInstance n d (mu_Lock t c)") auto
        from IH2[OF ci] have ev: "evolves (mu_Lock t c) c1" .
        from False have nm: "\<not> mu d" and ni: "inst d = NilIface" by auto
        show ?thesis using that Some sing False ci evolves_unlock[OF Some sing nm ni ev]
          by (auto simp: run_simps split: outcome.splits)
      qed
    qed
  qed
  have P3: "evolves c c'" if "resolveArgs (Suc n) ps c = Some (r, c')" for ps r and c c' :: "'w Container"
  proof (cases ps)
    case Nil
    with that show ?thesis by (simp add: evolves_refl run_simps)
  next
    case (Cons a as)
    show ?thesis
    proof (cases "a = ContainerPtr")
      case True
      with that Cons show ?thesis
        by (auto simp: run_simps split: option.splits outcome.splits dest!: IH3)
    next
      case False
      with that Cons show ?thesis
        by (auto simp: run_simps split: option.splits outcome.splits dest!: IH1 IH3) (blast intro: evolves_trans)+
    qed
  qed
  have P4: "evolves c c'" if "run_body (Suc n) p c = Some (r, c')" for p r and c c' :: "'w Container"
  proof (cases p)
    case (CallResolve w tok k)
    with that show ?thesis
      by (auto simp: run_simps split: option.splits dest!: IH1 IH4) (blast intro: evolves_trans evolves_world)+
  qed (use that in \<open>auto simp: evolves_world run_simps dest!: IH4\<close>)
  have P2: "evolves c c'" if "createInstance (Suc n) d c = Some (r, c')" for d r and c c' :: "'w Container"
    using that
    by (auto simp: evolves_refl run_simps split: option.splits gotype.splits outcome.splits if_splits returned.splits bool.splits
          dest!: IH3 IH4) (blast intro: evolves_trans evolves_call)+
  show ?case using P1 P2 P3 P4 by blast
qed

lemma resolveArgs_error:
  "resolveArgs n ps c = Some (Err e, c') \<Longrightarrow> \<exists>P e'. e = DependencyFailed P e'"
proof (induction n arbitrary: ps c e c')
  case 0
  then show ?case by (simp add: resolveArgs.simps)
next
  case (Suc n)
  show ?case
  proof (cases ps)
    case Nil
    with Suc.prems show ?thesis by (simp add: resolveArgs.simps)
  next
    case (Cons a as)
    with Suc.prems show ?thesis
      by (auto simp: resolveArgs.simps split: if_splits option.splits outcome.splits)
         (blast dest: Suc.IH)+
  qed
qed

lemma createInstance_error:
  "createInstance n d c = Some (Err e, c') \<Longrightarrow>
     (\<exists>P e'. e = DependencyFailed P e') \<or> (\<exists>v. e = FactoryError v)"
  by (cases n)
     (auto simp: createInstance.simps
           split: option.splits gotype.splits outcome.splits if_splits returned.splits bool.splits
           dest!: resolveArgs_error)

lemma resolveType_error:
  assumes "resolveType n S c = Some (Err e, c')"
  shows "e = NotRegistered S \<and> map_of (services c) S = None \<or>
         (\<exists>P e'. e = DependencyFailed P e') \<or> (\<exists>v. e = FactoryError v)"
  using assms
  by (cases n)
     (auto simp: resolveType.simps split: option.splits if_splits outcome.splits
           dest!: createInstance_error)

lemma resolveType_evolves: "resolveType n t c = Some (r, c') \<Longrightarrow> evolves c c'"
  and createInstance_evolves: "createInstance n d c = Some (r', c') \<Longrightarrow> evolves c c'"
  and resolveArgs_evolves: "resolveArgs n ps c = Some (r'', c') \<Longrightarrow> evolves c c'"
  and run_body_evolves: "run_body n p c = Some (r''', c') \<Longrightarrow> evolves c c'"
  using evolves_run[of n] by blast+

lemma evolves_calls: "evolves c c' \<Longrightarrow> \<exists>xs. calls c' = calls c @ xs"
  by (auto simp: evolves_def prefix_def)

lemma evolves_locked:
  assumes "evolves c c'" and "map_of (services c) t = Some d" and "mu d"
  shows "map_of (services c') t = Some d"
proof -
  have "rel_option fills (map_of (services c) t) (map_of (services c') t)"
    using assms(1) by (simp add: evolves_def)
  then show ?thesis
    using assms(2,3) by (cases "map_of (services c') t") (auto simp: fills_def)
qed

lemma evolves_transient:
  assumes "evolves c c'" and "map_of (services c) t = Some d" and "Lifecycle d = Transient"
  shows "map_of (services c') t = Some d"
proof -
  have "rel_option fills (map_of (services c) t) (map_of (services c') t)"
    using assms(1) by (simp add: evolves_def)
  then show ?thesis
    using assms(2,3) by (cases "map_of (services c') t") (auto simp: fills_def)
qed

lemma createInstance_called:
  assumes "createInstance n d c = Some (r, c')"
    and "r = Ok v \<or> r = Err (FactoryError v)"
  shows "\<exists>args. (ServiceType d, args) \<in> set (drop (length (calls c)) (calls c'))"
proof (cases n)
  case 0
  with assms show ?thesis by (simp add: createInstance.simps)
next
  case (Suc k)
  from assms(1) Suc obtain ins outs where ft: "factory_type (Factory d) = Some (FuncOf ins outs)"
    using assms(2) by (auto simp: createInstance.simps split: option.splits gotype.splits)
  from assms(1) Suc ft obtain ra c1 where ra: "resolveArgs k ins c = Some (ra, c1)"
    by (cases "resolveArgs k ins c") (auto simp: createInstance.simps)
  have "\<exists>args. ra = Ok args"
  proof (cases ra)
    case (Err e)
    with assms Suc ft ra have "r = Err e" by (simp add: createInstance.simps)
    moreover from resolveArgs_error ra Err obtain P e' where "e = DependencyFailed P e'" by blast
    ultimately show ?thesis using assms(2) by auto
  next
    case (Panic p)
    with assms Suc ft ra show ?thesis by (auto simp: createInstance.simps)
  qed auto
  then obtain args where args: "ra = Ok args" by blast
  from assms Suc ft ra args obtain body where body: "factory_body (Factory d) = Some body"
    by (cases "factory_body (Factory d)") (auto simp: createInstance.simps)
  let ?c2 = "c1\<lparr>calls := calls c1 @ [(ServiceType d, args)]\<rparr>"
  from assms Suc ft ra args body obtain rb c3 where
    rb: "run_body k (body args (world c1)) ?c2 = Some (rb, c3)" and c3: "c' = c3"
    by (cases "run_body k (body args (world c1)) ?c2")
       (auto simp: createInstance.simps split: if_splits option.splits returned.splits bool.splits)
  obtain xs where xs: "calls c1 = calls c @ xs"
    using evolves_calls[OF resolveArgs_evolves[OF ra]] by blast
  obtain ys where ys: "calls c3 = calls ?c2 @ ys"
    using evolves_calls[OF run_body_evolves[OF rb]] by blast
  have "calls c' = calls c @ xs @ [(ServiceType d, args)] @ ys"
    using xs ys c3 by simp
  then show ?thesis by auto
qed

lemma resolveType_called:
  assumes "map_of (services c) S = Some d"
    and "Lifecycle d = Singleton \<longrightarrow> inst d = NilIface"
    and "resolveType n S c = Some (r, c')"
    and "r = Ok v \<or> r = Err (FactoryError v)"
  shows "\<exists>args. (ServiceType d, args) \<in> set (drop (length (calls c)) (calls c'))"
proof (cases n)
  case 0
  with assms show ?thesis by (simp add: resolveType.simps)
next
  case (Suc k)
  show ?thesis
  proof (cases "Lifecycle d = Singleton")
    case False
    with assms Suc have "createInstance k d c = Some (r, c')"
      by (simp add: resolveType.simps)
    from createInstance_called[OF this assms(4)] show ?thesis .
  next
    case True
    let ?cL = "mu_Lock S c"
    from True assms Suc have unlocked: "\<not> mu d"
      by (auto simp: resolveType.simps split: if_splits)
    from True assms Suc unlocked obtain r1 c1 where ci: "createInstance k d ?cL = Some (r1, c1)"
      by (cases "createInstance k d ?cL") (auto simp: resolveType.simps)
    from True assms Suc unlocked ci have "r1 = r" and "calls c' = calls c1"
      by (auto simp: resolveType.simps update_descriptor_def split: outcome.splits)
    with createInstance_called[OF ci, of v] assms(4) show ?thesis
      by (simp add: update_descriptor_def)
  qed
qed

lemma resolveType_Suc: "resolveType n t c = Some x \<Longrightarrow> resolveType (Suc n) t c = Some x"
  by (rule fuel_Suc[THEN conjunct1, rule_format])

lemma createInstance_Suc: "createInstance n d c = Some x \<Longrightarrow> createInstance (Suc n) d c = Some x"
  by (rule fuel_Suc[THEN conjunct2, THEN conjunct1, rule_format])

lemma resolveArgs_Suc: "resolveArgs n ps c = Some x \<Longrightarrow> resolveArgs (Suc n) ps c = Some x"
  by (rule fuel_Suc[THEN conjunct2, THEN conjunct2, THEN conjunct1, rule_format])

lemma resolveType_fuel: "resolveType n t c = Some x \<Longrightarrow> n \<le> m \<Longrightarrow> resolveType m t c = Some x"
proof (induction m)
  case 0
  then show ?case by simp
next
  case (Suc m)
  then show ?case by (auto simp: le_Suc_eq intro: resolveType_Suc)
qed

lemma createInstance_fuel: "createInstance n d c = Some x \<Longrightarrow> n \<le> m \<Longrightarrow> createInstance m d c = Some x"
proof (induction m)
  case 0
  then show ?case by simp
next
  case (Suc m)
  then show ?case by (auto simp: le_Suc_eq intro: createInstance_Suc)
qed

lemma resolveArgs_fuel: "resolveArgs n ps c = Some x \<Longrightarrow> n \<le> m \<Longrightarrow> resolveArgs m ps c = Some x"
proof (induction m)
  case 0
  then show ?case by simp
next
  case (Suc m)
  then show ?case by (auto simp: le_Suc_eq intro: resolveArgs_Suc)
qed

lemma resolveArgs_Cons_container:
  "resolveArgs (Suc n) (ContainerPtr # ps) c =
     (case resolveArgs n ps c of None \<Rightarrow> None
      | Some (r, c') \<Rightarrow> Some (bind_rest [ThisContainer] r, c'))"
  by (simp add: resolveArgs.simps split: option.splits outcome.splits)

lemma resolveArgs_Cons_other:
  "argType \<noteq> ContainerPtr \<Longrightarrow>
   resolveArgs (Suc n) (argType # ps) c =
     (case resolveType n argType c of None \<Rightarrow> None
      | Some (Ok arg, c') \<Rightarrow>
          (case resolveArgs n ps c' of None \<Rightarrow> None
           | Some (r, c'') \<Rightarrow> Some (bind_rest [arg] r, c''))
      | Some (Err e, c') \<Rightarrow> Some (Err (DependencyFailed argType e), c')
      | Some (Panic p, c') \<Rightarrow> Some (Panic p, c'))"
  by (simp add: resolveArgs.simps split: option.splits outcome.splits)

lemma bind_rest_append: "bind_rest as (bind_rest bs r) = bind_rest (as @ bs) r"
  by (cases r) auto

lemma bind_rest_Ok: "bind_rest as r = Ok xs \<longleftrightarrow> (\<exists>bs. r = Ok bs \<and> xs = as @ bs)"
  by (cases r) auto

lemma resolveArgs_append:
  assumes "resolveArgs k pre c = Some (Ok as, c1)" and "resolveArgs m rest c1 = Some (r, c2)"
  shows "\<exists>j. resolveArgs j (pre @ rest) c = Some (bind_rest as r, c2)"
  using assms
proof (induction pre arbitrary: k c as)
  case Nil
  from Nil(1) have "as = []" and "c1 = c"
    by (cases k; simp add: resolveArgs.simps)+
  with Nil(2) show ?case by (cases r) auto
next
  case (Cons a pre)
  from Cons.prems(1) obtain k' where k: "k = Suc k'"
    by (cases k) (auto simp: resolveArgs.simps)
  show ?case
  proof (cases "a = ContainerPtr")
    case True
    from Cons.prems(1) k True obtain as' where
      as: "as = ThisContainer # as'" and pre: "resolveArgs k' pre c = Some (Ok as', c1)"
      by (auto simp: resolveArgs_Cons_container bind_rest_Ok split: option.splits)
    from Cons.IH[OF pre Cons.prems(2)] obtain j where
      "resolveArgs j (pre @ rest) c = Some (bind_rest as' r, c2)" by blast
    then have "resolveArgs (Suc j) ((a # pre) @ rest) c = Some (bind_rest as r, c2)"
      using True as by (simp add: resolveArgs_Cons_container bind_rest_append)
    then show ?thesis by blast
  next
    case False
    from Cons.prems(1) k False obtain v cm as' where
      rt: "resolveType k' a c = Some (Ok v, cm)" and
      pre: "resolveArgs k' pre cm = Some (Ok as', c1)" and as: "as = v # as'"
      by (auto simp: resolveArgs_Cons_other bind_rest_Ok split: option.splits outcome.splits)
    from Cons.IH[OF pre Cons.prems(2)] obtain j where
      j: "resolveArgs j (pre @ rest) cm = Some (bind_rest as' r, c2)" by blast
    have "resolveType (max k' j) a c = Some (Ok v, cm)"
      using resolveType_fuel[OF rt] by simp
    moreover have "resolveArgs (max k' j) (pre @ rest) cm = Some (bind_rest as' r, c2)"
      using resolveArgs_fuel[OF j] by simp
    ultimately have "resolveArgs (Suc (max k' j)) ((a # pre) @ rest) c = Some (bind_rest as r, c2)"
      using False as by (simp add: resolveArgs_Cons_other bind_rest_append)
    then show ?thesis by blast
  qed
qed

lemma resolveType_of_createInstance_Err:
  assumes "map_of (services c) S = Some d"
    and "Lifecycle d = Singleton \<longrightarrow> \<not> mu d \<and> inst d = NilIface"
    and "createInstance j d (if Lifecycle d = Singleton
            then mu_Lock S c else c) = Some (Err e, c2)"
  shows "resolveType (Suc j) S c = Some (Err e,
           if Lifecycle d = Singleton then mu_Unlock S c2 else c2)"
  using assms by (auto simp: resolveType.simps)

text \<open>
  An error returned by the factory, where \<^verbatim>\<open>IsNil\<close> is allowed on the second result:
  the second result has a type with a nil (an interface such as \<^verbatim>\<open>error\<close>, a pointer,
  ...). If the parameters are bound and the call returns a second result \<open>ev\<close> that is not
  nil, then Resolve returns \<open>ev\<close> itself as the error, not wrapped and with the text of
  \<open>ev\<close>, the first result is dropped, and the descriptor is as it was before, with an empty
  slot for a singleton; so a later Resolve that returns an instance or a factory error has
  called the factory again.
\<close>

lemma Factory_error_verbatim:
  assumes "TypeOf serviceType = Some t"
    and "map_of (services c) (strip_ptr t) = Some d"
    and "Lifecycle d = Singleton \<longrightarrow> \<not> mu d \<and> inst d = NilIface"
    and "factory_type (Factory d) = Some (FuncOf ins [rt, et])"
    and "factory_body (Factory d) = Some body"
    and "start = (if Lifecycle d = Singleton
                  then mu_Lock (strip_ptr t) c else c)"
    and "resolveArgs k ins start = Some (Ok args, c1)"
    and "NilIface \<notin> set args" and "first_mismatch args ins = None"
    and "run_body k (body args (world c1)) (c1\<lparr>calls := calls c1 @ [(ServiceType d, args)]\<rparr>) =
           Some (Results v ev, c2)"
    and "IsNil et ev = Some False"
    and "finish = (if Lifecycle d = Singleton
                   then mu_Unlock (strip_ptr t) c2 else c2)"
  shows "Resolve (Suc (Suc k)) serviceType c = Some (Err (FactoryError ev), finish) \<and>
         message user_msg (FactoryError ev) = user_msg ev \<and> Unwrap (FactoryError ev) = None \<and>
         map_of (services finish) (strip_ptr t) = Some d \<and>
         (\<forall>m r v' c3. Resolve m serviceType finish = Some (r, c3) \<and>
              (r = Ok v' \<or> r = Err (FactoryError v')) \<longrightarrow>
            (\<exists>args'. (ServiceType d, args') \<in> set (drop (length (calls finish)) (calls c3))))"
proof -
  let ?S = "strip_ptr t"
  have ci: "createInstance (Suc k) d start = Some (Err (FactoryError ev), c2)"
    using assms(4,5,7-11) by (simp add: createInstance.simps)
  have res: "Resolve (Suc (Suc k)) serviceType c = Some (Err (FactoryError ev), finish)"
    using assms(1-3,6,12) ci by (auto simp: Resolve_def resolveType.simps)
  have kept: "map_of (services finish) ?S = Some d"
  proof (cases "Lifecycle d = Singleton")
    case True
    with assms(2,6) have "map_of (services start) ?S = Some (d\<lparr>mu := True\<rparr>)"
      by (simp add: update_descriptor_def map_of_map_entry)
    from evolves_locked[OF createInstance_evolves[OF ci] this]
    have "map_of (services c2) ?S = Some (d\<lparr>mu := True\<rparr>)" by simp
    with True assms(3,12) show ?thesis
      by (simp add: update_descriptor_def map_of_map_entry)
  next
    case False
    then have tr: "Lifecycle d = Transient" by (cases "Lifecycle d") auto
    from False assms(6,12) have "start = c" "finish = c2" by simp_all
    with evolves_transient[OF createInstance_evolves[OF ci] _ tr] assms(2) show ?thesis by simp
  qed
  have again: "\<exists>args'. (ServiceType d, args') \<in> set (drop (length (calls finish)) (calls c3))"
    if "Resolve m serviceType finish = Some (r, c3)" and "r = Ok v' \<or> r = Err (FactoryError v')"
    for m r v' c3
  proof -
    from that(1) assms(1) have "resolveType m ?S finish = Some (r, c3)"
      by (simp add: Resolve_def)
    from resolveType_called[OF kept _ this that(2)] assms(3) show ?thesis by simp
  qed
  show ?thesis using res kept again by auto
qed

lemma Factory_error_verbatim_example:
  "Resolve 3 (token TestImplementation) failing_singleton =
     Some (Err (FactoryError (Obj (PtrTo errorString) (Some 0))),
           failing_singleton\<lparr>world := 1, calls := [(TestImplementation, [])]\<rparr>) \<and>
   map_of (services (failing_singleton\<lparr>world := 1, calls := [(TestImplementation, [])]\<rparr>))
      TestImplementation = Some (descriptor_of TestImplementation failing_factory Singleton) \<and>
   Resolve 3 (token TestImplementation) (failing_singleton\<lparr>world := 1, calls := [(TestImplementation, [])]\<rparr>) =
     Some (Err (FactoryError (Obj (PtrTo errorString) (Some 1))),
           failing_singleton\<lparr>world := 2, calls := [(TestImplementation, []), (TestImplementation, [])]\<rparr>)"
proof -
  let ?d = "descriptor_of TestImplementation failing_factory Singleton :: nat ServiceDescriptor"
  let ?S = "strip_ptr (PtrTo TestImplementation)"
  let ?start = "update_descriptor ?S (\<lambda>d. d\<lparr>mu := True\<rparr>) failing_singleton"
  let ?body = "\<lambda>(args::val list) w. Return (Suc w) (Obj (PtrTo TestImplementation) None) (Obj (PtrTo errorString) (Some w))"
  let ?c2 = "?start\<lparr>calls := calls ?start @ [(ServiceType ?d, [])]\<rparr>\<lparr>world := 1\<rparr>"
  let ?c3 = "failing_singleton\<lparr>world := 1, calls := [(TestImplementation, [])]\<rparr>"
  have t: "TypeOf (token TestImplementation) = Some (PtrTo TestImplementation)"
    by (simp add: token_def)
  have s: "?S = TestImplementation"
    by (simp add: strip_ptr_def)
  have d: "map_of (services failing_singleton) ?S = Some ?d"
    by (simp add: example_defs failing_singleton_def)
  have l: "Lifecycle ?d = Singleton \<longrightarrow> \<not> mu ?d \<and> inst ?d = NilIface"
    by (simp add: descriptor_of_def)
  have ft: "factory_type (Factory ?d) = Some (FuncOf [] [PtrTo TestImplementation, errorInterface])"
    and fb: "factory_body (Factory ?d) = Some ?body"
    by (simp_all add: descriptor_of_def failing_factory_def)
  have st: "?start = (if Lifecycle ?d = Singleton then update_descriptor ?S (\<lambda>d. d\<lparr>mu := True\<rparr>) failing_singleton
                     else failing_singleton)"
    by (simp add: descriptor_of_def)
  have ra: "resolveArgs 1 [] ?start = Some (Ok [], ?start)"
    by (simp add: eval_nat_numeral run_simps)
  have a1: "NilIface \<notin> set ([]::val list)" and a2: "first_mismatch [] [] = None" by simp_all
  have rb: "run_body 1 (?body [] (world ?start)) (?start\<lparr>calls := calls ?start @ [(ServiceType ?d, [])]\<rparr>) =
      Some (Results (Obj (PtrTo TestImplementation) None) (Obj (PtrTo errorString) (Some 0)), ?c2)"
    by (simp add: run_simps example_defs failing_singleton_def)
  have nn: "IsNil errorInterface (Obj (PtrTo errorString) (Some 0)) = Some False"
    by (simp add: errorInterface_def)
  have fin: "?c3 = (if Lifecycle ?d = Singleton then update_descriptor ?S (\<lambda>d. d\<lparr>mu := False\<rparr>) ?c2 else ?c2)"
    by (simp add: example_defs failing_singleton_def)
  note T = Factory_error_verbatim[OF t d l ft fb st ra a1 a2 rb nn fin, of "\<lambda>v. []"]
  have three: "Suc (Suc 1) = 3" by simp
  from T have r0: "Resolve 3 (token TestImplementation) failing_singleton =
     Some (Err (FactoryError (Obj (PtrTo errorString) (Some 0))), ?c3)"
    unfolding three by blast
  from T have k: "map_of (services ?c3) ?S = Some ?d" by blast
  have r2: "Resolve 3 (token TestImplementation) ?c3 =
     Some (Err (FactoryError (Obj (PtrTo errorString) (Some 1))),
           failing_singleton\<lparr>world := 2, calls := [(TestImplementation, []), (TestImplementation, [])]\<rparr>)"
    by (simp add: example_defs failing_singleton_def failing_factory_def eval_nat_numeral run_simps
          errorInterface_def)
  show ?thesis using r0 r2 k unfolding s by simp
qed

section \<open>The claims\<close>

text \<open>
  C1, as the claim states it, fails for a factory that returns the nil interface: the
  first Resolve succeeds with a nil instance, the slot of the descriptor stays empty, and
  the second Resolve calls the factory again.
\<close>

theorem nil_instance_not_cached:
  "Register (token TestInterface) nil_interface_factory Singleton empty_container = (Ok (), nil_singleton) \<and>
   Resolve 3 (token TestInterface) nil_singleton =
     Some (Ok NilIface, nil_singleton\<lparr>world := 1, calls := [(TestInterface, [])]\<rparr>) \<and>
   Resolve 3 (token TestInterface) (nil_singleton\<lparr>world := 1, calls := [(TestInterface, [])]\<rparr>) =
     Some (Ok NilIface, nil_singleton\<lparr>world := 2, calls := [(TestInterface, []), (TestInterface, [])]\<rparr>)"
  by (simp add: Register_nil_singleton)
     (simp add: Resolve_def token_def strip_ptr_def nil_singleton_def store_def empty_container_def
        NewContainer_def eval_nat_numeral run_simps update_descriptor_def nil_interface_factory_def)

text \<open>
  C1, amended. Take a singleton registration whose slot is empty and a first Resolve that
  succeeds with an instance \<open>v\<close> that is not nil. Then the factory was called during that
  Resolve, the descriptor now holds \<open>v\<close>, and in every state in which the descriptor still
  holds \<open>v\<close> a Resolve of the same token returns \<open>v\<close> and the state as it was: no call
  is added, the memory outside is untouched. No Resolve, of any token, removes \<open>v\<close> from
  the descriptor.
\<close>

theorem Singleton_cached:
  assumes "TypeOf serviceType = Some t"
    and "map_of (services c) (strip_ptr t) = Some d"
    and "Lifecycle d = Singleton" and "inst d = NilIface"
    and "Resolve n serviceType c = Some (Ok v, c1)" and "v \<noteq> NilIface"
  shows "(\<exists>args. (ServiceType d, args) \<in> set (drop (length (calls c)) (calls c1))) \<and>
         map_of (services c1) (strip_ptr t) = Some (d\<lparr>inst := v\<rparr>) \<and>
         (\<forall>m c2. map_of (services c2) (strip_ptr t) = Some (d\<lparr>inst := v\<rparr>) \<longrightarrow>
            Resolve (Suc m) serviceType c2 = Some (Ok v, c2)) \<and>
         (\<forall>m other r c2 c3. map_of (services c2) (strip_ptr t) = Some (d\<lparr>inst := v\<rparr>) \<and>
            Resolve m other c2 = Some (r, c3) \<longrightarrow>
            map_of (services c3) (strip_ptr t) = Some (d\<lparr>inst := v\<rparr>))"
proof -
  let ?S = "strip_ptr t"
  let ?cL = "update_descriptor ?S (\<lambda>d. d\<lparr>mu := True\<rparr>) c"
  from assms(1,5) have rt: "resolveType n ?S c = Some (Ok v, c1)"
    by (simp add: Resolve_def)
  then obtain k where n: "n = Suc k"
    by (cases n) (auto simp: resolveType.simps)
  have unlocked: "\<not> mu d"
    using rt n assms(2-4) by (auto simp: resolveType.simps split: if_splits)
  from rt n assms(2-4) unlocked obtain r c' where
    ci: "createInstance k d ?cL = Some (r, c')"
    by (cases "createInstance k d ?cL") (auto simp: resolveType.simps)
  from rt n assms(2-4) unlocked ci have r: "r = Ok v"
    and c1: "c1 = update_descriptor ?S (\<lambda>d. d\<lparr>inst := v, mu := False\<rparr>) c'"
    by (auto simp: resolveType.simps split: outcome.splits)
  have "\<exists>args. (ServiceType d, args) \<in> set (drop (length (calls ?cL)) (calls c'))"
    using createInstance_called[OF ci] r by simp
  then have called: "\<exists>args. (ServiceType d, args) \<in> set (drop (length (calls c)) (calls c1))"
    by (simp add: c1 update_descriptor_def)
  have "map_of (services ?cL) ?S = Some (d\<lparr>mu := True\<rparr>)"
    using assms(2) by (simp add: update_descriptor_def map_of_map_entry)
  from evolves_locked[OF createInstance_evolves[OF ci] this]
  have "map_of (services c') ?S = Some (d\<lparr>mu := True\<rparr>)" by simp
  then have cached: "map_of (services c1) ?S = Some (d\<lparr>inst := v\<rparr>)"
    using unlocked by (simp add: c1 update_descriptor_def map_of_map_entry)
  have again: "Resolve (Suc m) serviceType c2 = Some (Ok v, c2)"
    if "map_of (services c2) ?S = Some (d\<lparr>inst := v\<rparr>)" for m c2
    using that assms(1,3,6) unlocked by (simp add: Resolve_def resolveType.simps)
  have kept: "map_of (services c3) ?S = Some (d\<lparr>inst := v\<rparr>)"
    if e: "map_of (services c2) ?S = Some (d\<lparr>inst := v\<rparr>)"
      and r: "Resolve m other c2 = Some (r, c3)" for m other r c2 c3
  proof (cases "TypeOf other")
    case None
    with r e show ?thesis by (simp add: Resolve_def)
  next
    case (Some u)
    with r have "resolveType m (strip_ptr u) c2 = Some (r, c3)" by (simp add: Resolve_def)
    from resolveType_evolves[OF this]
    have "rel_option fills (map_of (services c2) ?S) (map_of (services c3) ?S)"
      by (simp add: evolves_def)
    then show ?thesis
      using e assms(6) by (cases "map_of (services c3) ?S") (auto simp: fills_def)
  qed
  show ?thesis using called cached again kept by blast
qed

theorem Singleton_cached_witness:
  "Resolve 3 (token TestImplementation) one_singleton =
     Some (Ok (Obj (PtrTo TestImplementation) (Some 0)),
           \<lparr>services = [(TestImplementation,
               (descriptor_of TestImplementation new_implementation Singleton)
                 \<lparr>inst := Obj (PtrTo TestImplementation) (Some 0)\<rparr>)],
            world = 1, calls = [(TestImplementation, [])]\<rparr>) \<and>
   Resolve 1 (token TestImplementation)
      \<lparr>services = [(TestImplementation,
               (descriptor_of TestImplementation new_implementation Singleton)
                 \<lparr>inst := Obj (PtrTo TestImplementation) (Some 0)\<rparr>)],
            world = 1, calls = [(TestImplementation, [])]\<rparr> =
     Some (Ok (Obj (PtrTo TestImplementation) (Some 0)),
           \<lparr>services = [(TestImplementation,
               (descriptor_of TestImplementation new_implementation Singleton)
                 \<lparr>inst := Obj (PtrTo TestImplementation) (Some 0)\<rparr>)],
            world = 1, calls = [(TestImplementation, [])]\<rparr>)"
proof -
  let ?d = "descriptor_of TestImplementation new_implementation Singleton :: nat ServiceDescriptor"
  let ?v = "Obj (PtrTo TestImplementation) (Some 0)"
  let ?c1 = "\<lparr>services = [(TestImplementation, ?d\<lparr>inst := ?v\<rparr>)],
            world = 1::nat, calls = [(TestImplementation, [])]\<rparr>"
  have t: "TypeOf (token TestImplementation) = Some (PtrTo TestImplementation)"
    by (simp add: token_def)
  have d: "map_of (services one_singleton) (strip_ptr (PtrTo TestImplementation)) = Some ?d"
    by (simp add: example_defs one_singleton_def)
  have l: "Lifecycle ?d = Singleton" and i: "inst ?d = NilIface"
    by (simp_all add: descriptor_of_def)
  have r: "Resolve 3 (token TestImplementation) one_singleton = Some (Ok ?v, ?c1)"
    by (simp add: example_defs one_singleton_def new_implementation_def eval_nat_numeral run_simps)
  have v: "?v \<noteq> NilIface" by simp
  have e: "map_of (services ?c1) (strip_ptr (PtrTo TestImplementation)) = Some (?d\<lparr>inst := ?v\<rparr>)"
    by (simp add: strip_ptr_def)
  from Singleton_cached[OF t d l i r v] e
  have "Resolve (Suc 0) (token TestImplementation) ?c1 = Some (Ok ?v, ?c1)" by blast
  with r show ?thesis by simp
qed

text \<open>
  C2. Take a registered factory whose parameter list is \<open>pre @ P # post\<close>, and suppose the
  loop has bound the parameters \<open>pre\<close> to \<open>as\<close>, reaching the state \<open>c1\<close>. If \<open>P\<close> is
  the pointer-to-Container type, the container itself is bound and the loop goes on with
  \<open>post\<close> from \<open>c1\<close> itself: nothing was resolved. Otherwise \<open>P\<close> is resolved in
  \<open>c1\<close>; if that returns \<open>v\<close>, then \<open>v\<close> is bound and the loop goes on from the state the
  resolution left; if it fails with \<open>e\<close>, creation stops there and Resolve, given enough
  steps, returns the error that wraps \<open>e\<close> and names \<open>P\<close>.
\<close>

theorem Dependency_binding:
  assumes "TypeOf serviceType = Some t"
    and "map_of (services c) (strip_ptr t) = Some d"
    and "Lifecycle d = Singleton \<longrightarrow> \<not> mu d \<and> inst d = NilIface"
    and "factory_type (Factory d) = Some (FuncOf (pre @ P # post) outs)"
    and "start = (if Lifecycle d = Singleton
                  then mu_Lock (strip_ptr t) c else c)"
    and "resolveArgs k pre start = Some (Ok as, c1)"
  shows "(P = ContainerPtr \<longrightarrow>
           (\<forall>m r c2. resolveArgs m post c1 = Some (r, c2) \<longrightarrow>
              (\<exists>j. resolveArgs j (pre @ P # post) start =
                     Some (bind_rest (as @ [ThisContainer]) r, c2)))) \<and>
         (P \<noteq> ContainerPtr \<longrightarrow>
           (\<forall>m v c2 m' r c3.
              resolveType m P c1 = Some (Ok v, c2) \<and> resolveArgs m' post c2 = Some (r, c3) \<longrightarrow>
              (\<exists>j. resolveArgs j (pre @ P # post) start = Some (bind_rest (as @ [v]) r, c3)))) \<and>
         (P \<noteq> ContainerPtr \<longrightarrow>
           (\<forall>m e c2. resolveType m P c1 = Some (Err e, c2) \<longrightarrow>
              (\<exists>j. \<forall>j' \<ge> j. Resolve j' serviceType c =
                 Some (Err (DependencyFailed P e),
                       if Lifecycle d = Singleton
                       then mu_Unlock (strip_ptr t) c2 else c2)) \<and>
              Unwrap (DependencyFailed P e) = Some e \<and>
              message user_msg (DependencyFailed P e) =
                ''failed to resolve dependency '' @ type_string P @ '': '' @ message user_msg e))"
proof (intro conjI impI allI)
  fix m r c2
  assume P: "P = ContainerPtr" and post: "resolveArgs m post c1 = Some (r, c2)"
  then have "resolveArgs (Suc m) (P # post) c1 = Some (bind_rest [ThisContainer] r, c2)"
    by (simp add: resolveArgs_Cons_container)
  from resolveArgs_append[OF assms(6) this]
  show "\<exists>j. resolveArgs j (pre @ P # post) start = Some (bind_rest (as @ [ThisContainer]) r, c2)"
    by (simp add: bind_rest_append)
next
  fix m v c2 m' r c3
  assume P: "P \<noteq> ContainerPtr"
    and "resolveType m P c1 = Some (Ok v, c2) \<and> resolveArgs m' post c2 = Some (r, c3)"
  then have rt: "resolveType m P c1 = Some (Ok v, c2)"
    and post: "resolveArgs m' post c2 = Some (r, c3)" by simp_all
  have "resolveType (max m m') P c1 = Some (Ok v, c2)"
    using resolveType_fuel[OF rt] by simp
  moreover have "resolveArgs (max m m') post c2 = Some (r, c3)"
    using resolveArgs_fuel[OF post] by simp
  ultimately have "resolveArgs (Suc (max m m')) (P # post) c1 = Some (bind_rest [v] r, c3)"
    using P by (simp add: resolveArgs_Cons_other)
  from resolveArgs_append[OF assms(6) this]
  show "\<exists>j. resolveArgs j (pre @ P # post) start = Some (bind_rest (as @ [v]) r, c3)"
    by (simp add: bind_rest_append)
next
  fix m e c2
  assume P: "P \<noteq> ContainerPtr" and rt: "resolveType m P c1 = Some (Err e, c2)"
  let ?finish = "if Lifecycle d = Singleton
                 then mu_Unlock (strip_ptr t) c2 else c2"
  from P rt have "resolveArgs (Suc m) (P # post) c1 = Some (Err (DependencyFailed P e), c2)"
    by (simp add: resolveArgs_Cons_other)
  from resolveArgs_append[OF assms(6) this] obtain j where
    "resolveArgs j (pre @ P # post) start = Some (Err (DependencyFailed P e), c2)" by auto
  with assms(4) have "createInstance (Suc j) d start = Some (Err (DependencyFailed P e), c2)"
    by (simp add: createInstance.simps)
  with assms(5) have "resolveType (Suc (Suc j)) (strip_ptr t) c = Some (Err (DependencyFailed P e), ?finish)"
    using resolveType_of_createInstance_Err[OF assms(2,3), of "Suc j"] by simp
  then have "\<forall>j' \<ge> Suc (Suc j). Resolve j' serviceType c = Some (Err (DependencyFailed P e), ?finish)"
    using assms(1) by (auto simp: Resolve_def intro: resolveType_fuel)
  then show "\<exists>j. \<forall>j' \<ge> j. Resolve j' serviceType c = Some (Err (DependencyFailed P e), ?finish)"
    by blast
qed simp_all

theorem Dependency_binding_witness:
  "(\<exists>j. \<forall>j' \<ge> j. Resolve j' (token TestService) service_only =
      Some (Err (DependencyFailed TestInterface (NotRegistered TestInterface)), service_only)) \<and>
   Resolve 4 (token TestService) service_only =
      Some (Err (DependencyFailed TestInterface (NotRegistered TestInterface)), service_only) \<and>
   message (\<lambda>v. []) (DependencyFailed TestInterface (NotRegistered TestInterface)) =
      ''failed to resolve dependency inject.TestInterface: service of type inject.TestInterface not registered'' \<and>
   (\<exists>j. resolveArgs j [ContainerPtr]
          (update_descriptor TestRepository (\<lambda>d. d\<lparr>mu := True\<rparr>) repository_singleton) =
      Some (Ok [ThisContainer],
            update_descriptor TestRepository (\<lambda>d. d\<lparr>mu := True\<rparr>) repository_singleton)) \<and>
   map_option (calls \<circ> snd) (Resolve 4 (token TestRepository) repository_singleton) =
      Some [(TestRepository, [ThisContainer])]"
proof -
  let ?d = "descriptor_of TestService new_service Transient :: nat ServiceDescriptor"
  have t: "TypeOf (token TestService) = Some (PtrTo TestService)"
    by (simp add: token_def)
  have s: "strip_ptr (PtrTo TestService) = TestService"
    by (simp add: strip_ptr_def)
  have d: "map_of (services service_only) (strip_ptr (PtrTo TestService)) = Some ?d"
    by (simp add: example_defs service_only_def)
  have l: "Lifecycle ?d = Singleton \<longrightarrow> \<not> mu ?d \<and> inst ?d = NilIface"
    by (simp add: descriptor_of_def)
  have ft: "factory_type (Factory ?d) = Some (FuncOf ([] @ TestInterface # []) [PtrTo TestService])"
    by (simp add: descriptor_of_def new_service_def)
  have st: "service_only = (if Lifecycle ?d = Singleton
      then update_descriptor (strip_ptr (PtrTo TestService)) (\<lambda>d. d\<lparr>mu := True\<rparr>) service_only
      else service_only)"
    by (simp add: descriptor_of_def)
  have ra: "resolveArgs 1 [] service_only = Some (Ok [], service_only)"
    by (simp add: run_simps)
  have P: "TestInterface \<noteq> ContainerPtr"
    by (simp add: TestInterface_def ContainerPtr_def)
  have rt: "resolveType 1 TestInterface service_only =
      Some (Err (NotRegistered TestInterface), service_only)"
    by (simp add: run_simps example_defs service_only_def TestInterface_def TestService_def)
  from Dependency_binding[OF t d l ft st ra, of "\<lambda>v. []"] P rt
  have a: "\<exists>j. \<forall>j' \<ge> j. Resolve j' (token TestService) service_only =
      Some (Err (DependencyFailed TestInterface (NotRegistered TestInterface)), service_only)"
    by (simp add: descriptor_of_def)
  have b: "Resolve 4 (token TestService) service_only =
      Some (Err (DependencyFailed TestInterface (NotRegistered TestInterface)), service_only)"
    by (simp add: example_defs service_only_def new_service_def eval_nat_numeral run_simps
          TestInterface_def TestService_def ContainerPtr_def)
  have m: "message (\<lambda>v. []) (DependencyFailed TestInterface (NotRegistered TestInterface)) =
      ''failed to resolve dependency inject.TestInterface: service of type inject.TestInterface not registered''"
    by (simp add: TestInterface_def)
  let ?e = "descriptor_of TestRepository new_repository Singleton :: nat ServiceDescriptor"
  let ?start = "update_descriptor TestRepository (\<lambda>d. d\<lparr>mu := True\<rparr>) repository_singleton"
  have t': "TypeOf (token TestRepository) = Some (PtrTo TestRepository)"
    by (simp add: token_def)
  have s': "strip_ptr (PtrTo TestRepository) = TestRepository"
    by (simp add: strip_ptr_def)
  have d': "map_of (services repository_singleton) (strip_ptr (PtrTo TestRepository)) = Some ?e"
    by (simp add: example_defs repository_singleton_def)
  have l': "Lifecycle ?e = Singleton \<longrightarrow> \<not> mu ?e \<and> inst ?e = NilIface"
    by (simp add: descriptor_of_def)
  have ft': "factory_type (Factory ?e) = Some (FuncOf ([] @ ContainerPtr # []) [PtrTo TestRepository])"
    by (simp add: descriptor_of_def new_repository_def)
  have st': "?start = (if Lifecycle ?e = Singleton
      then update_descriptor (strip_ptr (PtrTo TestRepository)) (\<lambda>d. d\<lparr>mu := True\<rparr>) repository_singleton
      else repository_singleton)"
    by (simp add: descriptor_of_def s')
  have ra': "resolveArgs 1 [] ?start = Some (Ok [], ?start)"
    by (simp add: run_simps)
  from Dependency_binding[OF t' d' l' ft' st' ra', of "\<lambda>v. []"] ra'
  have c: "\<exists>j. resolveArgs j [ContainerPtr] ?start = Some (Ok [ThisContainer], ?start)"
    by fastforce
  have e: "map_option (calls \<circ> snd) (Resolve 4 (token TestRepository) repository_singleton) =
      Some [(TestRepository, [ThisContainer])]"
    by (simp add: example_defs repository_singleton_def new_repository_def eval_nat_numeral run_simps
          assignable_def)
  show ?thesis using a b m c e by blast
qed

text \<open>
  C3. Take a token of dynamic type \<open>t\<close>, so that the declared service type is
  \<open>S = strip_ptr t\<close>, and a well-formed factory whose first result type is \<open>R\<close>. When
  \<open>S\<close> is an interface, Register succeeds exactly when \<open>R\<close> implements \<open>S\<close>, and
  otherwise returns the type-mismatch error that carries \<open>R\<close> and \<open>S\<close>. When \<open>S\<close>
  is concrete, Register succeeds exactly when \<open>R = S\<close>, or \<open>R\<close> is the pointer to
  \<open>S\<close>, or \<open>S\<close> is the pointer to \<open>R\<close>, and otherwise returns a type-mismatch error.
  A registration that does not succeed returns the container as it was.
\<close>

theorem Register_type_compatibility:
  assumes "TypeOf serviceType = Some t" and "factory_type factory = Some ft"
    and "well_formed_factory ft" and "first_result ft = Some R" and "S = strip_ptr t"
  shows "(Kind S = Interface \<longrightarrow>
            (fst (Register serviceType factory lifecycle c) = Ok () \<longleftrightarrow> Implements R S) \<and>
            (\<not> Implements R S \<longrightarrow>
               Register serviceType factory lifecycle c = (Err (NotImplemented R S), c))) \<and>
         (Kind S \<noteq> Interface \<longrightarrow>
            (fst (Register serviceType factory lifecycle c) = Ok () \<longleftrightarrow>
               R = S \<or> R = PtrTo S \<or> S = PtrTo R) \<and>
            (\<not> (R = S \<or> R = PtrTo S \<or> S = PtrTo R) \<longrightarrow>
               Register serviceType factory lifecycle c = (Err (TypeMismatch R S), c))) \<and>
         (fst (Register serviceType factory lifecycle c) \<noteq> Ok () \<longrightarrow>
            snd (Register serviceType factory lifecycle c) = c) \<and>
         type_mismatch (NotImplemented R S) \<and> type_mismatch (TypeMismatch R S)"
proof -
  have R: "R = Out ft 0"
    using first_result_Out[OF assms(3)] assms(4) by simp
  show ?thesis
    unfolding Register_well_formed[OF assms(1-3)] R assms(5)
    by (simp add: Let_def)
qed

theorem Register_type_compatibility_witness:
  "Register (token TestInterface) wrong_type_factory Transient empty_container =
     (Err (NotImplemented string_type TestInterface), empty_container) \<and>
   Register (token TestImplementation) wrong_type_factory Transient empty_container =
     (Err (TypeMismatch string_type TestImplementation), empty_container) \<and>
   fst (Register (token TestImplementation) new_implementation Transient empty_container) = Ok ()"
proof -
  have t1: "TypeOf (token TestInterface) = Some (PtrTo TestInterface)"
    and t2: "TypeOf (token TestImplementation) = Some (PtrTo TestImplementation)"
    by (simp_all add: token_def)
  have f1: "factory_type wrong_type_factory = Some (FuncOf [] [string_type])"
    and f2: "factory_type new_implementation = Some (FuncOf [] [PtrTo TestImplementation])"
    by (simp_all add: wrong_type_factory_def new_implementation_def)
  have w1: "well_formed_factory (FuncOf [] [string_type])"
    and w2: "well_formed_factory (FuncOf [] [PtrTo TestImplementation])" by simp_all
  have r1: "first_result (FuncOf [] [string_type]) = Some string_type"
    and r2: "first_result (FuncOf [] [PtrTo TestImplementation]) = Some (PtrTo TestImplementation)"
    by simp_all
  have s1: "TestInterface = strip_ptr (PtrTo TestInterface)"
    and s2: "TestImplementation = strip_ptr (PtrTo TestImplementation)"
    by (simp_all add: strip_ptr_def)
  have k1: "Kind TestInterface = Interface" "\<not> Implements string_type TestInterface"
    by (simp_all add: TestInterface_def string_type_def)
  have k2: "Kind TestImplementation \<noteq> Interface"
    "\<not> (string_type = TestImplementation \<or> string_type = PtrTo TestImplementation \<or>
        TestImplementation = PtrTo string_type)"
    by (simp_all add: TestImplementation_def string_type_def)
  have k3: "PtrTo TestImplementation = PtrTo TestImplementation" by simp
  show ?thesis
    using Register_type_compatibility[OF t1 f1 w1 r1 s1, of Transient empty_container]
      Register_type_compatibility[OF t2 f1 w1 r1 s2, of Transient empty_container]
      Register_type_compatibility[OF t2 f2 w2 r2 s2, of Transient empty_container]
      k1 k2 k3
    by simp
qed

text \<open>
  C4. A factory that declares two results and returns a second result that is not nil is
  to make Resolve return that error as it is. The code does not do so for a factory whose
  second result type is a struct with an \<^verbatim>\<open>Error\<close> method: the type implements
  \<^verbatim>\<open>error\<close>, so Register accepts the factory, and Resolve calls the factory and then
  panics in \<^verbatim>\<open>results[1].IsNil()\<close>, which \<^verbatim>\<open>reflect\<close> refuses on a struct; no error
  is returned. The theorem runs Register and Resolve on that factory.
\<close>

theorem struct_error_panics:
  "Register (token TestImplementation) struct_error_factory Singleton empty_container =
     (Ok (), struct_error_singleton) \<and>
   Resolve 3 (token TestImplementation) struct_error_singleton =
     Some (Panic (IsNilNotNilable (Basic Struct)),
           struct_error_singleton\<lparr>calls := [(TestImplementation, [])]\<rparr>)"
proof -
  have "Register (token TestImplementation) struct_error_factory Singleton empty_container =
     (Ok (), struct_error_singleton)"
    by (simp add: Register_def struct_error_factory_def struct_error_singleton_def Let_def
          token_def strip_ptr_def TestImplementation_def StructError_def errorInterface_def)
  moreover have "Resolve 3 (token TestImplementation) struct_error_singleton =
     Some (Panic (IsNilNotNilable (Basic Struct)),
           struct_error_singleton\<lparr>calls := [(TestImplementation, [])]\<rparr>)"
    by (simp add: example_defs struct_error_singleton_def struct_error_factory_def
          eval_nat_numeral run_simps StructError_def)
  ultimately show ?thesis by simp
qed

text \<open>
  C5, as the claim states it, fails for a factory that hands out a value it keeps: each
  Resolve calls the factory, and both return the same instance.
\<close>

theorem shared_instance_twice:
  "Register (token TestImplementation) shared_factory Transient empty_container =
     (Ok (), shared_transient) \<and>
   Resolve 3 (token TestImplementation) shared_transient =
     Some (Ok (Obj (PtrTo TestImplementation) (Some 7)),
           shared_transient\<lparr>calls := [(TestImplementation, [])]\<rparr>) \<and>
   Resolve 3 (token TestImplementation) (shared_transient\<lparr>calls := [(TestImplementation, [])]\<rparr>) =
     Some (Ok (Obj (PtrTo TestImplementation) (Some 7)),
           shared_transient\<lparr>calls := [(TestImplementation, []), (TestImplementation, [])]\<rparr>)"
proof -
  have "Register (token TestImplementation) shared_factory Transient empty_container =
     (Ok (), shared_transient)"
    by (simp add: Register_def shared_factory_def shared_transient_def Let_def
          token_def strip_ptr_def TestImplementation_def)
  moreover have "Resolve 3 (token TestImplementation) shared_transient =
     Some (Ok (Obj (PtrTo TestImplementation) (Some 7)),
           shared_transient\<lparr>calls := [(TestImplementation, [])]\<rparr>)"
    by (simp add: example_defs shared_transient_def shared_factory_def eval_nat_numeral run_simps)
  moreover have "Resolve 3 (token TestImplementation) (shared_transient\<lparr>calls := [(TestImplementation, [])]\<rparr>) =
     Some (Ok (Obj (PtrTo TestImplementation) (Some 7)),
           shared_transient\<lparr>calls := [(TestImplementation, []), (TestImplementation, [])]\<rparr>)"
    by (simp add: example_defs shared_transient_def shared_factory_def eval_nat_numeral run_simps)
  ultimately show ?thesis by simp
qed

text \<open>
  C5, amended. For a transient registration every Resolve is a fresh run of instance
  creation and no Resolve changes the descriptor, so nothing is cached. A Resolve that
  returns an instance has called the factory during that resolution; and when the
  parameters are bound and the call returns the first result \<open>v\<close> with no error, Resolve
  returns \<open>v\<close>. So two resolutions return distinct instances when the two calls do.
\<close>

theorem Transient_resolves_anew:
  assumes "TypeOf serviceType = Some t"
    and "map_of (services c) (strip_ptr t) = Some d"
    and "Lifecycle d = Transient"
  shows "Resolve (Suc n) serviceType c = createInstance n d c \<and>
         (\<forall>m r c'. Resolve m serviceType c = Some (r, c') \<longrightarrow>
            map_of (services c') (strip_ptr t) = Some d) \<and>
         (\<forall>m v c'. Resolve m serviceType c = Some (Ok v, c') \<longrightarrow>
            (\<exists>args. (ServiceType d, args) \<in> set (drop (length (calls c)) (calls c')))) \<and>
         (\<forall>k ins outs body args c1 v e c2.
            factory_type (Factory d) = Some (FuncOf ins outs) \<and>
            factory_body (Factory d) = Some body \<and>
            resolveArgs k ins c = Some (Ok args, c1) \<and>
            NilIface \<notin> set args \<and> first_mismatch args ins = None \<and>
            run_body k (body args (world c1)) (c1\<lparr>calls := calls c1 @ [(ServiceType d, args)]\<rparr>) =
              Some (Results v e, c2) \<and>
            (length outs = 2 \<longrightarrow> IsNil (outs ! 1) e = Some True) \<longrightarrow>
            Resolve (Suc (Suc k)) serviceType c = Some (Ok v, c2))"
proof -
  have a: "Resolve (Suc n) serviceType c = createInstance n d c" for n
    using assms by (simp add: Resolve_def resolveType.simps)
  have b: "map_of (services c') (strip_ptr t) = Some d"
    if "Resolve m serviceType c = Some (r, c')" for m r c'
  proof -
    from that assms(1) have "resolveType m (strip_ptr t) c = Some (r, c')"
      by (simp add: Resolve_def)
    from evolves_transient[OF resolveType_evolves[OF this] assms(2,3)] show ?thesis .
  qed
  have c: "\<exists>args. (ServiceType d, args) \<in> set (drop (length (calls c)) (calls c'))"
    if "Resolve m serviceType c = Some (Ok v, c')" for m v c'
  proof -
    from that assms(1) have "resolveType m (strip_ptr t) c = Some (Ok v, c')"
      by (simp add: Resolve_def)
    from resolveType_called[OF assms(2) _ this, of v] assms(3) show ?thesis by simp
  qed
  have d: "Resolve (Suc (Suc k)) serviceType c = Some (Ok v, c2)"
    if "factory_type (Factory d) = Some (FuncOf ins outs)"
      and "factory_body (Factory d) = Some body"
      and "resolveArgs k ins c = Some (Ok args, c1)"
      and "NilIface \<notin> set args" and "first_mismatch args ins = None"
      and "run_body k (body args (world c1)) (c1\<lparr>calls := calls c1 @ [(ServiceType d, args)]\<rparr>) =
              Some (Results v e, c2)"
      and "length outs = 2 \<longrightarrow> IsNil (outs ! 1) e = Some True"
    for k ins outs body args c1 v e c2
  proof -
    have "createInstance (Suc k) d c = Some (Ok v, c2)"
      using that by (simp add: createInstance.simps)
    then show ?thesis by (simp add: a)
  qed
  show ?thesis using a b c d by blast
qed

theorem Transient_resolves_anew_witness:
  "Resolve 3 (token TestImplementation) one_transient =
     Some (Ok (Obj (PtrTo TestImplementation) (Some 0)),
           one_transient\<lparr>world := 1, calls := [(TestImplementation, [])]\<rparr>) \<and>
   Resolve 3 (token TestImplementation)
       (one_transient\<lparr>world := 1, calls := [(TestImplementation, [])]\<rparr>) =
     Some (Ok (Obj (PtrTo TestImplementation) (Some 1)),
           one_transient\<lparr>world := 2, calls := [(TestImplementation, []), (TestImplementation, [])]\<rparr>) \<and>
   Resolve 3 (token TestImplementation) one_transient =
     createInstance 2 (descriptor_of TestImplementation new_implementation Transient) one_transient \<and>
   map_of (services (one_transient\<lparr>world := 1, calls := [(TestImplementation, [])]\<rparr>)) TestImplementation =
     Some (descriptor_of TestImplementation new_implementation Transient)"
proof -
  let ?d = "descriptor_of TestImplementation new_implementation Transient :: nat ServiceDescriptor"
  let ?c1 = "one_transient\<lparr>world := 1, calls := [(TestImplementation, [])]\<rparr>"
  have t: "TypeOf (token TestImplementation) = Some (PtrTo TestImplementation)"
    by (simp add: token_def)
  have s: "strip_ptr (PtrTo TestImplementation) = TestImplementation"
    by (simp add: strip_ptr_def)
  have d: "map_of (services one_transient) (strip_ptr (PtrTo TestImplementation)) = Some ?d"
    by (simp add: example_defs one_transient_def)
  have l: "Lifecycle ?d = Transient" by (simp add: descriptor_of_def)
  have r1: "Resolve 3 (token TestImplementation) one_transient =
      Some (Ok (Obj (PtrTo TestImplementation) (Some 0)), ?c1)"
    by (simp add: example_defs one_transient_def new_implementation_def eval_nat_numeral run_simps)
  have r2: "Resolve 3 (token TestImplementation) ?c1 =
     Some (Ok (Obj (PtrTo TestImplementation) (Some 1)),
           one_transient\<lparr>world := 2, calls := [(TestImplementation, []), (TestImplementation, [])]\<rparr>)"
    by (simp add: example_defs one_transient_def new_implementation_def eval_nat_numeral run_simps)
  note T = Transient_resolves_anew[OF t d l, of 2]
  have a: "Resolve (Suc 2) (token TestImplementation) one_transient = createInstance 2 ?d one_transient"
    by (rule T[THEN conjunct1])
  have b: "map_of (services ?c1) (strip_ptr (PtrTo TestImplementation)) = Some ?d"
    by (rule T[THEN conjunct2, THEN conjunct1, rule_format, OF r1])
  have three: "Suc 2 = 3" by simp
  show ?thesis using r1 r2 a b unfolding s three by simp
qed

text \<open>
  C6, as the claim states it, fails for a nil factory (and for a nil token): a nil interface
  is not a function, and Register does not return the malformed-factory error, it panics
  on the nil \<^verbatim>\<open>reflect.Type\<close>.
\<close>

theorem Register_nil_factory_panics:
  "\<not> is_function nil_factory \<and>
   \<not> fails_malformed (fst (Register (token TestImplementation) nil_factory Transient empty_container)) \<and>
   fst (Register (token TestImplementation) nil_factory Transient empty_container) = Panic NilDereference"
  by (simp add: nil_factory_def Register_def token_def)

text \<open>
  C6, amended. For a token and a factory that are not the nil interface, Register fails
  with a malformed-factory error exactly when the factory is not a function, or the number
  of its results is neither 1 nor 2, or it has two results of which the second does not
  implement \<^verbatim>\<open>error\<close>; and then the container is returned as it was.
\<close>

theorem Register_malformed_factory:
  assumes "TypeOf serviceType = Some t" and "factory_type factory = Some ft"
  shows "(fails_malformed (fst (Register serviceType factory lifecycle c)) \<longleftrightarrow>
            Kind ft \<noteq> Func \<or> (NumOut ft \<noteq> 1 \<and> NumOut ft \<noteq> 2) \<or>
            (NumOut ft = 2 \<and> \<not> Implements (Out ft 1) errorInterface)) \<and>
         (fails_malformed (fst (Register serviceType factory lifecycle c)) \<longrightarrow>
            snd (Register serviceType factory lifecycle c) = c)"
  using assms by (auto simp: Register_def Let_def)

theorem Register_malformed_factory_witness:
  "fails_malformed (fst (Register (token TestImplementation) not_a_function Transient empty_container)) \<and>
   snd (Register (token TestImplementation) not_a_function Transient empty_container) = empty_container"
proof -
  have t: "TypeOf (token TestImplementation) = Some (PtrTo TestImplementation)"
    by (simp add: token_def)
  have f: "factory_type not_a_function = Some string_type"
    by (simp add: not_a_function_def)
  have k: "Kind string_type \<noteq> Func" by (simp add: string_type_def)
  show ?thesis
    using Register_malformed_factory[OF t f, of Transient empty_container] k by simp
qed

text \<open>
  C7. For a token whose key \<open>strip_ptr t\<close> has no descriptor, Has returns false, Resolve
  (with any bound of at least one step) returns the not-registered error that carries the
  key and prints it, the container is returned as it was, and so Has returns false after
  the failed resolution too.
\<close>

theorem Resolve_not_registered:
  assumes "TypeOf serviceType = Some t" and "map_of (services c) (strip_ptr t) = None"
  shows "Has serviceType c = Ok False \<and>
         Resolve (Suc n) serviceType c = Some (Err (NotRegistered (strip_ptr t)), c) \<and>
         map_option (Has serviceType \<circ> snd) (Resolve (Suc n) serviceType c) = Some (Ok False) \<and>
         message user_msg (NotRegistered (strip_ptr t)) =
           ''service of type '' @ type_string (strip_ptr t) @ '' not registered''"
  using assms by (simp add: Resolve_def Has_def resolveType.simps)

theorem Resolve_not_registered_witness:
  "Has (token TestImplementation) empty_container = Ok False \<and>
   Resolve 1 (token TestImplementation) empty_container =
     Some (Err (NotRegistered TestImplementation), empty_container) \<and>
   message (\<lambda>v. []) (NotRegistered TestImplementation) =
     ''service of type inject.TestImplementation not registered''"
proof -
  have t: "TypeOf (token TestImplementation) = Some (PtrTo TestImplementation)"
    by (simp add: token_def)
  have s: "strip_ptr (PtrTo TestImplementation) = TestImplementation"
    by (simp add: strip_ptr_def)
  have m: "map_of (services empty_container) (strip_ptr (PtrTo TestImplementation)) = None"
    by (simp add: empty_container_def NewContainer_def)
  have n: "type_string TestImplementation = ''inject.TestImplementation''"
    by (simp add: TestImplementation_def)
  show ?thesis
    using Resolve_not_registered[OF t m, of 0 "\<lambda>v. []"] s n by simp
qed

text \<open>
  C8. A Register that succeeds stores a fresh descriptor (no instance, not locked) under the
  key \<open>strip_ptr t\<close> of the token, in place of what the key held; nothing else in the map
  changes, the memory outside and the list of factory calls are as before, so no factory has
  been invoked; and the same call succeeds on any other container \<open>c0\<close>, whatever it
  holds under the key.
\<close>

theorem Register_stores:
  assumes "Register serviceType factory lifecycle c = (Ok (), c')"
  shows "\<exists>t. TypeOf serviceType = Some t \<and>
           services c' = AList.update (strip_ptr t)
             \<lparr>ServiceType = strip_ptr t, Factory = factory, Lifecycle = lifecycle,
              inst = NilIface, mu = False\<rparr> (services c) \<and>
           map_of (services c') = (map_of (services c))(strip_ptr t \<mapsto>
             \<lparr>ServiceType = strip_ptr t, Factory = factory, Lifecycle = lifecycle,
              inst = NilIface, mu = False\<rparr>) \<and>
           world c' = world c \<and> calls c' = calls c \<and>
           fst (Register serviceType factory lifecycle c0) = Ok ()"
proof -
  obtain t where t: "TypeOf serviceType = Some t"
    and c': "c' = store (strip_ptr t) factory lifecycle c"
    and any: "fst (Register serviceType factory lifecycle c0) = Ok ()"
    using Register_Ok[OF assms, of c0] by blast
  show ?thesis
    using t any by (simp add: c' store_def update_conv')
qed

theorem Register_stores_witness:
  "Register (token TestImplementation) new_implementation Singleton empty_container = (Ok (), one_singleton) \<and>
   map_of (services one_singleton) TestImplementation =
     Some \<lparr>ServiceType = TestImplementation, Factory = new_implementation, Lifecycle = Singleton,
           inst = NilIface, mu = False\<rparr> \<and>
   world one_singleton = world empty_container \<and> calls one_singleton = calls empty_container \<and>
   fst (Register (token TestImplementation) new_implementation Singleton one_singleton) = Ok ()"
proof -
  have s: "strip_ptr (PtrTo TestImplementation) = TestImplementation"
    by (simp add: strip_ptr_def)
  show ?thesis
    using Register_stores[OF Register_one_singleton, of one_singleton] Register_one_singleton s
    by (auto simp: token_def)
qed

text \<open>
  C9. After Clear the map is empty: GetServiceTypes returns the empty list and Has returns
  false for every token that has a type. Clear touches neither the memory outside the
  container, where the instances handed out live, nor the list of calls.
\<close>

theorem Clear_empties:
  "services (Clear c) = [] \<and> GetServiceTypes (Clear c) = [] \<and>
   Has serviceType (Clear c) = (case TypeOf serviceType of None \<Rightarrow> Panic NilDereference | Some t \<Rightarrow> Ok False) \<and>
   world (Clear c) = world c \<and> calls (Clear c) = calls c"
  by (simp add: Clear_def GetServiceTypes_def Has_def split: option.splits)

text \<open>
  C10. Register, Resolve and Has compute the key of a token in the same way, stripping one
  pointer level if there is one. After a Register that succeeds, Has of the same token is
  true and no Resolve of the same token ends in a not-registered error.
\<close>

theorem Register_then_found:
  assumes "Register serviceType factory lifecycle c = (Ok (), c')"
  shows "Has serviceType c' = Ok True \<and>
         (\<forall>n r c''. Resolve n serviceType c' = Some (r, c'') \<longrightarrow> \<not> not_registered_error r) \<and>
         (\<exists>t. TypeOf serviceType = Some t \<and> map_of (services c') (strip_ptr t) \<noteq> None \<and>
              Has serviceType c' = Ok (map_of (services c') (strip_ptr t) \<noteq> None) \<and>
              (\<forall>n. Resolve n serviceType c' = resolveType n (strip_ptr t) c')) \<and>
         strip_ptr (PtrTo u) = u \<and> (Kind u \<noteq> Ptr \<longrightarrow> strip_ptr u = u)"
proof -
  obtain t where t: "TypeOf serviceType = Some t"
    and c': "c' = store (strip_ptr t) factory lifecycle c"
    using Register_Ok[OF assms] by blast
  have found: "map_of (services c') (strip_ptr t) \<noteq> None"
    by (simp add: c' store_def update_conv')
  have "\<not> not_registered_error r" if "Resolve n serviceType c' = Some (r, c'')" for n r c''
  proof (cases r)
    case (Err e)
    with that t have "resolveType n (strip_ptr t) c' = Some (Err e, c'')"
      by (simp add: Resolve_def)
    from resolveType_error[OF this] found show ?thesis
      using Err by auto
  qed auto
  then show ?thesis
    using t found by (auto simp: Has_def Resolve_def strip_ptr_def)
qed

theorem Register_then_found_witness:
  "Register (token TestImplementation) new_implementation Singleton empty_container = (Ok (), one_singleton) \<and>
   Has (token TestImplementation) one_singleton = Ok True \<and>
   Has (Obj TestImplementation (Some 0)) one_singleton = Ok True \<and>
   Has (Obj (PtrTo (PtrTo TestImplementation)) None) one_singleton = Ok False"
proof -
  have "Has (Obj TestImplementation (Some 0)) one_singleton = Ok True"
    and "Has (Obj (PtrTo (PtrTo TestImplementation)) None) one_singleton = Ok False"
    by (simp_all add: Has_def one_singleton_def store_def empty_container_def NewContainer_def
          strip_ptr_def TestImplementation_def)
  then show ?thesis
    using Register_then_found[OF Register_one_singleton, THEN conjunct1] Register_one_singleton
    by simp
qed

end
